theory Spec2Isabelle
  imports Main "HOL-Library.Multiset"
begin

section \<open>Values exchanged with the registry client\<close>

text \<open>
  The purger of \<^verbatim>\<open>package worker\<close> talks to the registry through
  \<^verbatim>\<open>api.AcrCLIClientInterface\<close>. Go pointers that the code compares with \<^verbatim>\<open>nil\<close>
  are \<open>option\<close> values; a Go \<^verbatim>\<open>error\<close> is \<open>error option\<close> with \<open>None\<close> for \<^verbatim>\<open>nil\<close>.
  A dereference of a nil pointer is the outcome \<open>Panic\<close>.
\<close>

datatype error = Error string

datatype 'a outcome = Return 'a | Panic

text \<open>\<^verbatim>\<open>http.Response\<close> (only the field the purger reads) and \<^verbatim>\<open>autorest.Response\<close>,
  which embeds a \<^verbatim>\<open>*http.Response\<close> that may be nil.\<close>

record http_Response =
  StatusCode :: int

record autorest_Response =
  Response :: "http_Response option"

definition StatusNotFound :: int where
  "StatusNotFound = 404"

text \<open>\<^verbatim>\<open>acr.TagAttributesBase\<close> and \<^verbatim>\<open>acr.ManifestAttributesBase\<close>: the pointer fields
  \<^verbatim>\<open>Name\<close> and \<^verbatim>\<open>Digest\<close>; \<open>Attributes\<close> stands for the remaining fields of a manifest
  record, which only \<^verbatim>\<open>common.IsManifestDeletable\<close> reads.\<close>

record TagAttributesBase =
  Name :: "string option"

record 'a ManifestAttributesBase =
  Digest :: "string option"
  Attributes :: 'a

text \<open>\<^verbatim>\<open>acr.Manifests\<close> embeds an \<^verbatim>\<open>autorest.Response\<close> by value and holds a pointer to
  the page of records.\<close>

record 'a Manifests = autorest_Response +
  ManifestsAttributes :: "'a ManifestAttributesBase list option"

text \<open>
  The client answers as a function of the request (a mock registry); the context argument
  is left out. The arguments are the repository name and the tag name or digest; for the
  listing, the repository, the filter and the last digest seen.
\<close>

record 'a AcrCLIClientInterface =
  DeleteAcrTag :: "string \<Rightarrow> string \<Rightarrow> autorest_Response option \<times> error option"
  DeleteManifest :: "string \<Rightarrow> string \<Rightarrow> autorest_Response option \<times> error option"
  GetAcrManifests :: "string \<Rightarrow> string \<Rightarrow> string \<Rightarrow> 'a Manifests option \<times> error option"

text \<open>The condition \<^verbatim>\<open>resp != nil && resp.Response != nil && resp.StatusCode ==
  http.StatusNotFound\<close>, read left to right as Go's \<^verbatim>\<open>&&\<close> does; where it holds, the
  status code that the message prints.\<close>

definition notFoundStatus :: "autorest_Response option \<Rightarrow> int option" where
  "notFoundStatus resp =
     (case resp of
        None \<Rightarrow> None
      | Some r \<Rightarrow>
          (case Response r of
             None \<Rightarrow> None
           | Some h \<Rightarrow> if StatusCode h = StatusNotFound then Some (StatusCode h) else None))"

section \<open>Effects: the counter, the requests and the printed lines\<close>

datatype request =
    DeleteAcrTagReq string string
  | DeleteManifestReq string string
  | GetAcrManifestsReq string string string

datatype arg = Str string | Num int | Err "error option"

datatype level = Info | Warn | ErrorLevel

datatype field =
    FieldRepository | FieldTagCount | FieldManifestCount | FieldTag | FieldManifest
  | FieldLoginURL | FieldStatusCode | FieldDeletedCount | FieldAttemptedCount | FieldError

text \<open>A line of \<^verbatim>\<open>fmt.Printf\<close> is kept as its format and arguments, an event handed to
  the logger as its level, fields and message.\<close>

datatype event =
    Printf string "arg list"
  | LogEvent level "(field \<times> arg) list" string

text \<open>
  The state a call works on: its \<^verbatim>\<open>atomic.Int64\<close> counter (a slice holds fewer than
  \<open>2 ^ 63\<close> elements, so \<^verbatim>\<open>Add(1)\<close> never wraps), the requests sent to the client in the
  order they were made, and the output in the order it was produced.
\<close>

record state =
  deleted :: int
  calls :: "request list"
  printed :: "event list"

definition initial :: state where
  "initial = \<lparr>deleted = 0, calls = [], printed = []\<rparr>"

type_synonym task = "state \<Rightarrow> (error option \<times> state) outcome"

section \<open>The pool and its task groups\<close>

text \<open>
  Modelled from the spec: the pool (\<^verbatim>\<open>pond.NewPool\<close>, held by \<^verbatim>\<open>Executer\<close>) and its task
  groups are not among the sources. Section 4.1 of the specification: a task submitted to a
  group runs on some worker; tasks need not start or finish in submission order; \<^verbatim>\<open>Wait\<close>
  blocks until every task of the group has finished and returns the first error among them.
  The scheduling is a parameter: \<open>early k\<close> says whether the \<open>k\<close>-th task of a group has
  already finished when \<^verbatim>\<open>SubmitErr\<close> returns to the submitter, and \<open>finishOrder\<close> picks
  the order in which the remaining tasks finish while the submitter waits. Every value of
  the two is a schedule. The specification does not say what the pool does with a task that
  panics, so that is a parameter too: with \<open>recovers = None\<close> the panic takes the process
  down, as a panic of a goroutine does; with \<open>recovers = Some e\<close> the worker recovers the
  panic and the task ends with the error \<open>e\<close>.
\<close>

record Pool =
  early :: "nat \<Rightarrow> bool"
  finishOrder :: "nat list"
  recovers :: "error option"

record TaskGroup =
  nextIndex :: nat
  pending :: "task list"
  firstError :: "error option"

text \<open>Modelled from the spec: a worker of the pool running a task. What a task that panics
  had done to the state before is not kept; the tasks of the purger do nothing before the
  dereference that can panic.\<close>

definition worker :: "Pool \<Rightarrow> task \<Rightarrow> state \<Rightarrow> (error option \<times> state) outcome" where
  "worker pl t s =
     (case t s of
        Panic \<Rightarrow> (case recovers pl of None \<Rightarrow> Panic | Some e \<Rightarrow> Return (Some e, s))
      | Return r \<Rightarrow> Return r)"

text \<open>Modelled from the spec: \<^verbatim>\<open>newGroup()\<close> returns a fresh group, and
  \<^verbatim>\<open>group.submit(task)\<close> adds the task to the group and to the run queue of the pool. A
  task that finishes at once leaves its error, if it is the first, in the group.\<close>

definition NewGroup :: TaskGroup where
  "NewGroup = \<lparr>nextIndex = 0, pending = [], firstError = None\<rparr>"

definition SubmitErr :: "Pool \<Rightarrow> task \<Rightarrow> TaskGroup \<times> state \<Rightarrow> (TaskGroup \<times> state) outcome" where
  "SubmitErr pl t gs =
     (case gs of (g, s) \<Rightarrow>
        if early pl (nextIndex g) then
          (case worker pl t s of
             Panic \<Rightarrow> Panic
           | Return (err, s') \<Rightarrow>
               Return (g\<lparr>nextIndex := Suc (nextIndex g),
                         firstError := (if firstError g = None then err else firstError g)\<rparr>, s'))
        else Return (g\<lparr>nextIndex := Suc (nextIndex g), pending := pending g @ [t]\<rparr>, s))"

text \<open>Modelled from the spec: the order in which the pending tasks finish. Each number of
  the list picks one of the tasks still pending; when the list runs out the rest finish in
  submission order. Every order of the tasks is picked by some list.\<close>

function schedule :: "nat list \<Rightarrow> 'a list \<Rightarrow> 'a list" where
  "schedule ks [] = []"
| "schedule [] (x # xs) = x # xs"
| "schedule (k # ks) (x # xs) =
     (let i = k mod length (x # xs)
      in (x # xs) ! i # schedule ks (take i (x # xs) @ drop (Suc i) (x # xs)))"
  by pat_completeness auto
termination
  by (relation "measure (\<lambda>(ks, xs). length xs)") auto

text \<open>Modelled from the spec: \<^verbatim>\<open>group.wait()\<close> has the workers run what is pending to the
  end, in the order the pool picks, and returns the first error among the tasks of the
  group.\<close>

fun runTasks :: "Pool \<Rightarrow> task list \<Rightarrow> error option \<Rightarrow> state \<Rightarrow> (error option \<times> state) outcome" where
  "runTasks pl [] first s = Return (first, s)"
| "runTasks pl (t # ts) first s =
     (case worker pl t s of
        Panic \<Rightarrow> Panic
      | Return (err, s') \<Rightarrow> runTasks pl ts (if first = None then err else first) s')"

definition Wait :: "Pool \<Rightarrow> TaskGroup \<Rightarrow> state \<Rightarrow> (error option \<times> state) outcome" where
  "Wait pl g s = runTasks pl (schedule (finishOrder pl) (pending g)) (firstError g) s"

text \<open>\<^verbatim>\<open>for _, x := range xs { group.SubmitErr(func() error { ... x ... }) }\<close>: one task per
  element, each closure holding its own element (the loop variable is per iteration, as
  from Go 1.22).\<close>

fun submitEach :: "Pool \<Rightarrow> task list \<Rightarrow> TaskGroup \<times> state \<Rightarrow> (TaskGroup \<times> state) outcome" where
  "submitEach pl [] gs = Return gs"
| "submitEach pl (t # ts) gs =
     (case SubmitErr pl t gs of
        Panic \<Rightarrow> Panic
      | Return gs' \<Rightarrow> submitEach pl ts gs')"

section \<open>The purger\<close>

text \<open>\<^verbatim>\<open>Purger\<close> with the fields of the embedded \<^verbatim>\<open>Executer\<close>.\<close>

record 'a Purger =
  pool :: Pool
  loginURL :: string
  repoName :: string
  acrClient :: "'a AcrCLIClientInterface"

subsection \<open>The version that prints (the file with \<^verbatim>\<open>PurgeUntaggedManifests\<close>)\<close>

text \<open>The task of \<^verbatim>\<open>PurgeTags\<close>: \<^verbatim>\<open>*tag.Name\<close> is evaluated for the call's argument, with
  no nil check before it.\<close>

definition deleteTag :: "'a Purger \<Rightarrow> TagAttributesBase \<Rightarrow> task" where
  "deleteTag p tag s =
     (case Name tag of
        None \<Rightarrow> Panic
      | Some name \<Rightarrow>
          (case DeleteAcrTag (acrClient p) (repoName p) name of (resp, err) \<Rightarrow>
             let s1 = s\<lparr>calls := calls s @ [DeleteAcrTagReq (repoName p) name]\<rparr> in
             if err = None then
               Return (None,
                 s1\<lparr>printed := printed s1 @
                      [Printf ''Deleted %s/%s:%s\<newline>'' [Str (loginURL p), Str (repoName p), Str name]],
                    deleted := deleted s1 + 1\<rparr>)
             else
               (case notFoundStatus resp of
                  Some code \<Rightarrow>
                    Return (None,
                      s1\<lparr>deleted := deleted s1 + 1,
                         printed := printed s1 @
                           [Printf ''Skipped %s/%s:%s, HTTP status: %d\<newline>''
                              [Str (loginURL p), Str (repoName p), Str name, Num code]]\<rparr>)
                | None \<Rightarrow>
                    Return (err,
                      s1\<lparr>printed := printed s1 @
                           [Printf ''Failed to delete %s/%s:%s, error: %v\<newline>''
                              [Str (loginURL p), Str (repoName p), Str name, Err err]]\<rparr>))))"

definition PurgeTags ::
  "'a Purger \<Rightarrow> TagAttributesBase list \<Rightarrow> ((int \<times> error option) \<times> state) outcome" where
  "PurgeTags p tags =
     (case submitEach (pool p) (map (deleteTag p) tags) (NewGroup, initial) of
        Panic \<Rightarrow> Panic
      | Return (grp, s) \<Rightarrow>
          (case Wait (pool p) grp s of
             Panic \<Rightarrow> Panic
           | Return (err, s') \<Rightarrow> Return ((deleted s', err), s')))"

definition deleteManifest :: "'a Purger \<Rightarrow> string \<Rightarrow> state \<Rightarrow> error option \<times> state" where
  "deleteManifest p manifestDigest s =
     (case DeleteManifest (acrClient p) (repoName p) manifestDigest of (resp, err) \<Rightarrow>
        let s1 = s\<lparr>calls := calls s @ [DeleteManifestReq (repoName p) manifestDigest]\<rparr> in
        if err = None then
          (None,
           s1\<lparr>printed := printed s1 @
                [Printf ''Deleted %s/%s@%s\<newline>''
                   [Str (loginURL p), Str (repoName p), Str manifestDigest]],
              deleted := deleted s1 + 1\<rparr>)
        else
          (case notFoundStatus resp of
             Some code \<Rightarrow>
               (None,
                s1\<lparr>deleted := deleted s1 + 1,
                   printed := printed s1 @
                     [Printf ''Skipped %s/%s@%s, HTTP status: %d\<newline>''
                        [Str (loginURL p), Str (repoName p), Str manifestDigest, Num code]]\<rparr>)
           | None \<Rightarrow>
               (err,
                s1\<lparr>printed := printed s1 @
                     [Printf ''Failed to delete %s/%s@%s, error: %v\<newline>''
                        [Str (loginURL p), Str (repoName p), Str manifestDigest, Err err]]\<rparr>)))"

text \<open>The closure \<^verbatim>\<open>func() error { return p.deleteManifest(ctx, d, &counter) }\<close>.\<close>

definition manifestTask :: "'a Purger \<Rightarrow> string \<Rightarrow> task" where
  "manifestTask p manifestDigest s = Return (deleteManifest p manifestDigest s)"

definition PurgeManifests ::
  "'a Purger \<Rightarrow> string list \<Rightarrow> ((int \<times> error option) \<times> state) outcome" where
  "PurgeManifests p manifests =
     (case submitEach (pool p) (map (manifestTask p) manifests) (NewGroup, initial) of
        Panic \<Rightarrow> Panic
      | Return (grp, s) \<Rightarrow>
          (case Wait (pool p) grp s of
             Panic \<Rightarrow> Panic
           | Return (err, s') \<Rightarrow> Return ((deleted s', err), s')))"

subsection \<open>The untagged sweep\<close>

text \<open>The loop over one page. \<^verbatim>\<open>common.IsManifestDeletable\<close> is not among the sources and
  is the parameter \<open>IsManifestDeletable\<close>; the skip set \<^verbatim>\<open>map[string]struct{}\<close> is a set of
  digests.\<close>

fun submitManifests ::
  "('a ManifestAttributesBase \<Rightarrow> bool) \<Rightarrow> 'a Purger \<Rightarrow> string set \<Rightarrow>
     'a ManifestAttributesBase list \<Rightarrow> TaskGroup \<times> state \<Rightarrow> (TaskGroup \<times> state) outcome" where
  "submitManifests IsManifestDeletable p toSkipManifests [] gs = Return gs"
| "submitManifests IsManifestDeletable p toSkipManifests (manifest # rest) gs =
     (case Digest manifest of
        None \<Rightarrow> submitManifests IsManifestDeletable p toSkipManifests rest gs
      | Some manifestDigest \<Rightarrow>
          if \<not> IsManifestDeletable manifest then
            submitManifests IsManifestDeletable p toSkipManifests rest gs
          else if manifestDigest \<in> toSkipManifests then
            submitManifests IsManifestDeletable p toSkipManifests rest gs
          else
            (case SubmitErr (pool p) (manifestTask p manifestDigest) gs of
               Panic \<Rightarrow> Panic
             | Return gs' \<Rightarrow> submitManifests IsManifestDeletable p toSkipManifests rest gs'))"

text \<open>
  What \<^verbatim>\<open>PurgeUntaggedManifests\<close> leaves behind when it returns: the pair it returns,
  whether it has waited for its group, the group, and the state.
\<close>

type_synonym sweep = "(int \<times> error option) \<times> bool \<times> TaskGroup \<times> state"

text \<open>The two statements after the loop.\<close>

definition waitAndReturn :: "'a Purger \<Rightarrow> TaskGroup \<times> state \<Rightarrow> sweep outcome" where
  "waitAndReturn p gs =
     (case gs of (grp, s) \<Rightarrow>
        (case Wait (pool p) grp s of
           Panic \<Rightarrow> Panic
         | Return (err, s') \<Rightarrow> Return ((deleted s', err), True, grp\<lparr>pending := []\<rparr>, s')))"

text \<open>The condition \<^verbatim>\<open>resultManifests != nil && resultManifests.Response.Response != nil
  && resultManifests.StatusCode == http.StatusNotFound\<close>.\<close>

definition repositoryNotFound :: "'a Manifests option \<Rightarrow> bool" where
  "repositoryNotFound resultManifests =
     (case resultManifests of
        None \<Rightarrow> False
      | Some r \<Rightarrow>
          (case Response r of
             None \<Rightarrow> False
           | Some h \<Rightarrow> StatusCode h = StatusNotFound))"

text \<open>The \<^verbatim>\<open>for { ... }\<close> of \<^verbatim>\<open>PurgeUntaggedManifests\<close>, which has no bound: \<open>None\<close> is
  a loop that never ends.\<close>

partial_function (option) sweepLoop ::
  "('a ManifestAttributesBase \<Rightarrow> bool) \<Rightarrow> 'a Purger \<Rightarrow> string set \<Rightarrow> string \<Rightarrow>
     TaskGroup \<times> state \<Rightarrow> sweep outcome option" where
  "sweepLoop IsManifestDeletable p toSkipManifests lastManifestDigest gs =
     (case gs of (grp, s0) \<Rightarrow>
        (case GetAcrManifests (acrClient p) (repoName p) [] lastManifestDigest of
           (resultManifests, err) \<Rightarrow>
             let s = s0\<lparr>calls := calls s0 @
                        [GetAcrManifestsReq (repoName p) [] lastManifestDigest]\<rparr> in
             if err \<noteq> None then
               (if repositoryNotFound resultManifests then Some (Return ((0, None), False, grp, s))
                else Some (Return ((0, err), False, grp, s)))
             else
               (case resultManifests of
                  None \<Rightarrow> Some (waitAndReturn p (grp, s))
                | Some r \<Rightarrow>
                    (case ManifestsAttributes r of
                       None \<Rightarrow> Some (waitAndReturn p (grp, s))
                     | Some manifests \<Rightarrow>
                         if length manifests = 0 then Some (waitAndReturn p (grp, s))
                         else
                           (case submitManifests IsManifestDeletable p toSkipManifests
                                   manifests (grp, s) of
                              Panic \<Rightarrow> Some Panic
                            | Return gs' \<Rightarrow>
                                if length manifests = 0 then Some (waitAndReturn p gs')
                                else
                                  (case Digest (manifests ! (length manifests - 1)) of
                                     None \<Rightarrow> Some Panic
                                   | Some d \<Rightarrow>
                                       sweepLoop IsManifestDeletable p toSkipManifests
                                         d gs'))))))"

definition PurgeUntaggedManifests ::
  "('a ManifestAttributesBase \<Rightarrow> bool) \<Rightarrow> 'a Purger \<Rightarrow> string set \<Rightarrow> sweep outcome option" where
  "PurgeUntaggedManifests IsManifestDeletable p toSkipManifests =
     sweepLoop IsManifestDeletable p toSkipManifests [] (NewGroup, initial)"

subsection \<open>The version that logs (\<^verbatim>\<open>internal/worker/purger.go\<close>)\<close>

definition logDeleteTag :: "(field \<times> arg) list \<Rightarrow> 'a Purger \<Rightarrow> TagAttributesBase \<Rightarrow> task" where
  "logDeleteTag log p tag s =
     (case Name tag of
        None \<Rightarrow> Panic
      | Some name \<Rightarrow>
          (case DeleteAcrTag (acrClient p) (repoName p) name of (resp, err) \<Rightarrow>
             let s1 = s\<lparr>calls := calls s @ [DeleteAcrTagReq (repoName p) name]\<rparr> in
             if err = None then
               Return (None,
                 s1\<lparr>printed := printed s1 @
                      [LogEvent Info (log @ [(FieldTag, Str name)]) ''Deleted tag''],
                    deleted := deleted s1 + 1\<rparr>)
             else
               (case notFoundStatus resp of
                  Some code \<Rightarrow>
                    Return (None,
                      s1\<lparr>deleted := deleted s1 + 1,
                         printed := printed s1 @
                           [LogEvent Warn (log @ [(FieldTag, Str name), (FieldStatusCode, Num code)])
                              ''Skipped tag, HTTP status'']\<rparr>)
                | None \<Rightarrow>
                    Return (err,
                      s1\<lparr>printed := printed s1 @
                           [LogEvent ErrorLevel (log @ [(FieldTag, Str name), (FieldError, Err err)])
                              ''Failed to delete tag'']\<rparr>))))"

definition PurgeTags_purger_go ::
  "'a Purger \<Rightarrow> TagAttributesBase list \<Rightarrow> ((int \<times> error option) \<times> state) outcome" where
  "PurgeTags_purger_go p tags =
     (let log = [(FieldRepository, Str (repoName p)), (FieldTagCount, Num (int (length tags)))];
          s0 = initial\<lparr>printed := [LogEvent Info log ''Starting concurrent tag deletion'']\<rparr>
      in case submitEach (pool p) (map (logDeleteTag log p) tags) (NewGroup, s0) of
           Panic \<Rightarrow> Panic
         | Return (grp, s) \<Rightarrow>
             (case Wait (pool p) grp s of
                Panic \<Rightarrow> Panic
              | Return (err, s') \<Rightarrow> Return ((deleted s', err), s')))"

definition logDeleteManifest :: "(field \<times> arg) list \<Rightarrow> 'a Purger \<Rightarrow> string \<Rightarrow> task" where
  "logDeleteManifest log p manifest s =
     (case DeleteManifest (acrClient p) (repoName p) manifest of (resp, err) \<Rightarrow>
        let s1 = s\<lparr>calls := calls s @ [DeleteManifestReq (repoName p) manifest]\<rparr> in
        if err = None then
          Return (None,
            s1\<lparr>printed := printed s1 @
                 [LogEvent Info (log @ [(FieldLoginURL, Str (loginURL p)), (FieldManifest, Str manifest)])
                    ''Deleted manifest''],
               deleted := deleted s1 + 1\<rparr>)
        else
          (case notFoundStatus resp of
             Some code \<Rightarrow>
               Return (None,
                 s1\<lparr>deleted := deleted s1 + 1,
                    printed := printed s1 @
                      [LogEvent Warn (log @ [(FieldManifest, Str manifest), (FieldStatusCode, Num code)])
                         ''Skipped manifest, HTTP status'']\<rparr>)
           | None \<Rightarrow>
               Return (err,
                 s1\<lparr>printed := printed s1 @
                      [LogEvent ErrorLevel (log @ [(FieldManifest, Str manifest), (FieldError, Err err)])
                         ''Failed to delete manifest'']\<rparr>)))"

definition PurgeManifests_purger_go ::
  "'a Purger \<Rightarrow> string list \<Rightarrow> ((int \<times> error option) \<times> state) outcome" where
  "PurgeManifests_purger_go p manifests =
     (let log = [(FieldRepository, Str (repoName p)),
                 (FieldManifestCount, Num (int (length manifests)))];
          s0 = initial\<lparr>printed := [LogEvent Info log ''Starting concurrent manifest deletion'']\<rparr>
      in case submitEach (pool p) (map (logDeleteManifest log p) manifests) (NewGroup, s0) of
           Panic \<Rightarrow> Panic
         | Return (grp, s) \<Rightarrow>
             (case Wait (pool p) grp s of
                Panic \<Rightarrow> Panic
              | Return (err, s') \<Rightarrow>
                  let finalCount = deleted s' in
                  Return ((finalCount, err),
                    s'\<lparr>printed := printed s' @
                         [LogEvent Info
                            (log @ [(FieldDeletedCount, Num finalCount),
                                    (FieldAttemptedCount, Num (int (length manifests)))])
                            ''Completed manifest deletion batch'']\<rparr>)))"

section \<open>Notions used in the statements\<close>

text \<open>
  How a delete call ends: it succeeds (nil error), it fails with status not-found, or it fails
  otherwise. The purger counts the first two and returns the error of the third.
\<close>

definition succeeds :: "autorest_Response option \<times> error option \<Rightarrow> bool" where
  "succeeds r = (snd r = None)"

definition failsNotFound :: "autorest_Response option \<times> error option \<Rightarrow> bool" where
  "failsNotFound r = (snd r \<noteq> None \<and> notFoundStatus (fst r) \<noteq> None)"

definition nonRecoverable :: "autorest_Response option \<times> error option \<Rightarrow> bool" where
  "nonRecoverable r = (snd r \<noteq> None \<and> notFoundStatus (fst r) = None)"

definition tagFails :: "'a Purger \<Rightarrow> TagAttributesBase \<Rightarrow> bool" where
  "tagFails p tag =
     (case Name tag of
        None \<Rightarrow> False
      | Some name \<Rightarrow> nonRecoverable (DeleteAcrTag (acrClient p) (repoName p) name))"

definition manifestFails :: "'a Purger \<Rightarrow> string \<Rightarrow> bool" where
  "manifestFails p d = nonRecoverable (DeleteManifest (acrClient p) (repoName p) d)"

text \<open>
  What can be read off the requests a call has sent: the cursors of its list calls, its
  delete requests, and how many of those were answered with success or not-found.
\<close>

fun listCursors :: "request list \<Rightarrow> string list" where
  "listCursors [] = []"
| "listCursors (GetAcrManifestsReq repo query cursor # rs) = cursor # listCursors rs"
| "listCursors (DeleteAcrTagReq repo name # rs) = listCursors rs"
| "listCursors (DeleteManifestReq repo d # rs) = listCursors rs"

fun isDelete :: "request \<Rightarrow> bool" where
  "isDelete (DeleteAcrTagReq repo name) = True"
| "isDelete (DeleteManifestReq repo d) = True"
| "isDelete (GetAcrManifestsReq repo query cursor) = False"

definition deleteRequests :: "request list \<Rightarrow> request list" where
  "deleteRequests rs = filter isDelete rs"

fun requestFailed :: "'a Purger \<Rightarrow> request \<Rightarrow> bool" where
  "requestFailed p (DeleteAcrTagReq repo name) = nonRecoverable (DeleteAcrTag (acrClient p) repo name)"
| "requestFailed p (DeleteManifestReq repo d) = nonRecoverable (DeleteManifest (acrClient p) repo d)"
| "requestFailed p (GetAcrManifestsReq repo query cursor) = False"

definition requestOk :: "'a Purger \<Rightarrow> request \<Rightarrow> bool" where
  "requestOk p r = (isDelete r \<and> \<not> requestFailed p r)"

definition okDeletes :: "'a Purger \<Rightarrow> request list \<Rightarrow> int" where
  "okDeletes p rs = int (length (filter (requestOk p) rs))"

text \<open>
  The parts of what the sweep leaves behind, and the requests of a sweep that has returned.
\<close>

definition returned :: "sweep \<Rightarrow> int \<times> error option" where
  "returned r = fst r"

definition hasWaited :: "sweep \<Rightarrow> bool" where
  "hasWaited r = fst (snd r)"

definition finalState :: "sweep \<Rightarrow> state" where
  "finalState r = snd (snd (snd r))"

definition sweepCalls :: "sweep outcome option \<Rightarrow> request list" where
  "sweepCalls x = (case x of Some (Return r) \<Rightarrow> calls (finalState r) | _ \<Rightarrow> [])"

text \<open>
  The page that the listing returns at a cursor, the digests of a page that the sweep is to
  delete (those of records that have a digest, are deletable and are not in the skip set),
  and the delete requests that go with the pages listed at the given cursors.
\<close>

definition pageAt :: "'a Purger \<Rightarrow> string \<Rightarrow> 'a ManifestAttributesBase list" where
  "pageAt p cursor =
     (case GetAcrManifests (acrClient p) (repoName p) [] cursor of
        (Some r, None) \<Rightarrow> (case ManifestsAttributes r of None \<Rightarrow> [] | Some ms \<Rightarrow> ms)
      | (Some r, Some e) \<Rightarrow> []
      | (None, err) \<Rightarrow> [])"

fun eligible :: "('a ManifestAttributesBase \<Rightarrow> bool) \<Rightarrow> string set \<Rightarrow>
    'a ManifestAttributesBase list \<Rightarrow> string list" where
  "eligible D skip [] = []"
| "eligible D skip (m # ms) =
     (case Digest m of
        None \<Rightarrow> eligible D skip ms
      | Some d \<Rightarrow> if D m \<and> d \<notin> skip then d # eligible D skip ms else eligible D skip ms)"

definition expected ::
  "('a ManifestAttributesBase \<Rightarrow> bool) \<Rightarrow> 'a Purger \<Rightarrow> string set \<Rightarrow> string list \<Rightarrow> request list" where
  "expected D p skip cursors =
     map (DeleteManifestReq (repoName p)) (concat (map (\<lambda>c. eligible D skip (pageAt p c)) cursors))"

subsection \<open>Notions used in the proofs\<close>

text \<open>
  The order in which a call's tasks run under a pool: those that finish as they are
  submitted, in submission order, then the others in the order the pool picks.
\<close>

fun earlyPart :: "(nat \<Rightarrow> bool) \<Rightarrow> nat \<Rightarrow> 'a list \<Rightarrow> 'a list" where
  "earlyPart e n [] = []"
| "earlyPart e n (x # xs) = (if e n then x # earlyPart e (Suc n) xs else earlyPart e (Suc n) xs)"

fun latePart :: "(nat \<Rightarrow> bool) \<Rightarrow> nat \<Rightarrow> 'a list \<Rightarrow> 'a list" where
  "latePart e n [] = []"
| "latePart e n (x # xs) = (if e n then latePart e (Suc n) xs else x # latePart e (Suc n) xs)"

definition execOrder :: "Pool \<Rightarrow> 'a list \<Rightarrow> 'a list" where
  "execOrder pl xs = earlyPart (early pl) 0 xs @ schedule (finishOrder pl) (latePart (early pl) 0 xs)"

text \<open>
  A task that ends under the pool, adds one to the counter unless its target is bad, and ends
  with an error exactly for a bad target; two states that agree on counter and requests, and two task
  results that agree up to what was printed.
\<close>

definition counting :: "Pool \<Rightarrow> ('x \<Rightarrow> task) \<Rightarrow> ('x \<Rightarrow> bool) \<Rightarrow> 'x \<Rightarrow> bool" where
  "counting pl body bad x =
     (\<forall>s. \<exists>err s'. worker pl (body x) s = Return (err, s') \<and>
        deleted s' = deleted s + (if bad x then 0 else 1) \<and> (err = None) = (\<not> bad x))"

definition counted :: "'a Purger \<Rightarrow> state \<Rightarrow> bool" where
  "counted p s = (deleted s = okDeletes p (calls s))"

definition sameEffect :: "state \<Rightarrow> state \<Rightarrow> bool" where
  "sameEffect s s' = (deleted s = deleted s' \<and> calls s = calls s')"

definition sameResult ::
  "(error option \<times> state) outcome \<Rightarrow> (error option \<times> state) outcome \<Rightarrow> bool" where
  "sameResult a b =
     (case a of
        Panic \<Rightarrow> b = Panic
      | Return (e, s) \<Rightarrow> (case b of Panic \<Rightarrow> False | Return (e', s') \<Rightarrow> e = e' \<and> sameEffect s s'))"

text \<open>
  The invariant of the sweep's loop: the pending tasks are delete tasks; the delete requests
  sent and those pending make up \<open>M\<close>; the counter counts the requests answered with
  success or not-found; the group holds an error exactly if a request has failed. That
  every list call made so far was answered without an error, and what the sweep has
  established when it returns.
\<close>

definition sweepInv :: "'a Purger \<Rightarrow> request multiset \<Rightarrow> TaskGroup \<times> state \<Rightarrow> bool" where
  "sweepInv p M gs =
     (case gs of (g, s) \<Rightarrow>
        \<exists>ds. pending g = map (manifestTask p) ds \<and>
          mset (deleteRequests (calls s)) + mset (map (DeleteManifestReq (repoName p)) ds) = M \<and>
          deleted s = okDeletes p (calls s) \<and>
          (firstError g = None) = (\<forall>r\<in>set (calls s). \<not> requestFailed p r))"

definition listedOk :: "'a Purger \<Rightarrow> request list \<Rightarrow> bool" where
  "listedOk p rs =
     (\<forall>c\<in>set (listCursors rs). snd (GetAcrManifests (acrClient p) (repoName p) [] c) = None)"

definition sweepPost ::
  "('a ManifestAttributesBase \<Rightarrow> bool) \<Rightarrow> 'a Purger \<Rightarrow> string set \<Rightarrow> sweep outcome \<Rightarrow> bool" where
  "sweepPost D p skip res =
     (case res of
        Panic \<Rightarrow> True
      | Return r \<Rightarrow>
          (if hasWaited r then
             fst (returned r) = okDeletes p (calls (finalState r)) \<and>
             (snd (returned r) = None) = (\<forall>q\<in>set (calls (finalState r)). \<not> requestFailed p q) \<and>
             mset (deleteRequests (calls (finalState r))) =
               mset (expected D p skip (listCursors (calls (finalState r)))) \<and>
             listedOk p (calls (finalState r))
           else
             (\<exists>cursor rm e.
                GetAcrManifests (acrClient p) (repoName p) [] cursor = (rm, Some e) \<and>
                calls (finalState r) \<noteq> [] \<and>
                last (calls (finalState r)) = GetAcrManifestsReq (repoName p) [] cursor \<and>
                returned r = (0, if repositoryNotFound rm then None else Some e))))"

subsection \<open>A registry and pools to run the purger on\<close>

text \<open>
  Deleting \<open>''gone''\<close> is answered not-found, deleting \<open>''broken''\<close> fails with a
  server error, every other delete succeeds. \<open>inOrder\<close> runs the tasks at the join in
  submission order, \<open>eager\<close> runs each task as it is submitted, and neither recovers
  from a panic; \<open>recovering\<close> is \<open>inOrder\<close> with workers that recover from one.
\<close>

definition okResponse :: "autorest_Response option \<times> error option" where
  "okResponse = (Some \<lparr>Response = Some \<lparr>StatusCode = 202\<rparr>\<rparr>, None)"

definition notFoundResponse :: "autorest_Response option \<times> error option" where
  "notFoundResponse = (Some \<lparr>Response = Some \<lparr>StatusCode = 404\<rparr>\<rparr>, Some (Error ''not found''))"

definition serverError :: "autorest_Response option \<times> error option" where
  "serverError = (Some \<lparr>Response = Some \<lparr>StatusCode = 500\<rparr>\<rparr>, Some (Error ''internal server error''))"

definition exampleDelete :: "string \<Rightarrow> string \<Rightarrow> autorest_Response option \<times> error option" where
  "exampleDelete repo ref =
     (if ref = ''gone'' then notFoundResponse
      else if ref = ''broken'' then serverError
      else okResponse)"

definition examplePurger ::
  "Pool \<Rightarrow> (string \<Rightarrow> unit Manifests option \<times> error option) \<Rightarrow> unit Purger" where
  "examplePurger pl listing =
     \<lparr>pool = pl, loginURL = ''example.azurecr.io'', repoName = ''app'',
      acrClient = \<lparr>DeleteAcrTag = exampleDelete, DeleteManifest = exampleDelete,
                   GetAcrManifests = (\<lambda>repo query cursor. listing cursor)\<rparr>\<rparr>"

definition inOrder :: Pool where
  "inOrder = \<lparr>early = (\<lambda>k. False), finishOrder = [], recovers = None\<rparr>"

definition eager :: Pool where
  "eager = \<lparr>early = (\<lambda>k. True), finishOrder = [], recovers = None\<rparr>"

definition recovering :: Pool where
  "recovering =
     \<lparr>early = (\<lambda>k. False), finishOrder = [], recovers = Some (Error ''task panicked'')\<rparr>"

definition deletable :: "unit ManifestAttributesBase \<Rightarrow> bool" where
  "deletable m = True"

text \<open>Listings, as functions of the cursor.\<close>

definition noListing :: "string \<Rightarrow> unit Manifests option \<times> error option" where
  "noListing cursor = (None, None)"

definition page :: "string option list \<Rightarrow> unit Manifests option \<times> error option" where
  "page ds =
     (Some \<lparr>Response = Some \<lparr>StatusCode = 200\<rparr>,
            ManifestsAttributes = Some (map (\<lambda>d. \<lparr>Digest = d, Attributes = ()\<rparr>) ds)\<rparr>, None)"

definition threePages :: "string \<Rightarrow> unit Manifests option \<times> error option" where
  "threePages cursor =
     (if cursor = [] then page [Some ''sha256:a'']
      else if cursor = ''sha256:a'' then page [Some ''sha256:b'']
      else if cursor = ''sha256:b'' then page [Some ''sha256:c'']
      else page [])"

definition abcPage :: "string \<Rightarrow> unit Manifests option \<times> error option" where
  "abcPage cursor =
     (if cursor = [] then page [Some ''sha256:a'', Some ''sha256:b'', Some ''sha256:c'']
      else page [])"

definition nilDigestLast :: "string \<Rightarrow> unit Manifests option \<times> error option" where
  "nilDigestLast cursor =
     (if cursor = [] then page [Some ''sha256:a'', None] else page [])"

definition failsOnSecondPage :: "string \<Rightarrow> unit Manifests option \<times> error option" where
  "failsOnSecondPage cursor =
     (if cursor = [] then page [Some ''sha256:a'']
      else (None, Some (Error ''connection reset'')))"

definition brokenOnFirstPage :: "string \<Rightarrow> unit Manifests option \<times> error option" where
  "brokenOnFirstPage cursor =
     (if cursor = [] then page [Some ''sha256:a'', Some ''broken''] else page [])"

definition repositoryMissing :: "string \<Rightarrow> unit Manifests option \<times> error option" where
  "repositoryMissing cursor =
     (Some \<lparr>Response = Some \<lparr>StatusCode = 404\<rparr>, ManifestsAttributes = None\<rparr>,
      Some (Error ''repository not found''))"

section \<open>Scheduling and counting lemmas\<close>

lemma mset_schedule: "mset (schedule ks xs) = mset xs"
proof (induction ks xs rule: schedule.induct)
  case (3 k ks x xs)
  let ?ys = "x # xs"
  let ?i = "k mod length ?ys"
  have i: "?i < length ?ys" by simp
  have "mset ?ys = mset (take ?i ?ys @ ?ys ! ?i # drop (Suc ?i) ?ys)"
    using id_take_nth_drop [OF i] by metis
  then show ?case using 3 by (simp add: Let_def del: take_Cons' drop_Suc_Cons)
qed simp_all

lemma schedule_map: "schedule ks (map f xs) = map f (schedule ks xs)"
proof (induction ks xs rule: schedule.induct)
  case (3 k ks x xs)
  let ?ys = "x # xs"
  let ?i = "k mod length ?ys"
  have i: "?i < length ?ys" by simp
  have nth: "map f ?ys ! ?i = f (?ys ! ?i)"
    using i by (rule nth_map)
  have rest: "schedule ks (take ?i (map f ?ys) @ drop (Suc ?i) (map f ?ys))
      = map f (schedule ks (take ?i ?ys @ drop (Suc ?i) ?ys))"
    using 3 [OF refl] by (simp only: take_map drop_map map_append [symmetric])
  have "schedule (k # ks) (map f ?ys) =
      map f ?ys ! ?i # schedule ks (take ?i (map f ?ys) @ drop (Suc ?i) (map f ?ys))"
    by (simp add: Let_def del: take_Cons' drop_Suc_Cons)
  also have "\<dots> = map f (schedule (k # ks) ?ys)"
    unfolding nth rest by (simp add: Let_def del: take_Cons' drop_Suc_Cons)
  finally show ?case .
qed simp_all

lemma earlyPart_map: "earlyPart e n (map f xs) = map f (earlyPart e n xs)"
  by (induction xs arbitrary: n) auto

lemma latePart_map: "latePart e n (map f xs) = map f (latePart e n xs)"
  by (induction xs arbitrary: n) auto

lemma mset_parts: "mset (earlyPart e n xs) + mset (latePart e n xs) = mset xs"
  by (induction xs arbitrary: n) auto

lemma execOrder_map: "execOrder pl (map f xs) = map f (execOrder pl xs)"
  by (simp add: execOrder_def earlyPart_map latePart_map schedule_map)

lemma mset_execOrder: "mset (execOrder pl xs) = mset xs"
  by (simp add: execOrder_def mset_schedule mset_parts)

lemma worker_Return: "t s = Return r \<Longrightarrow> worker pl t s = Return r"
  by (simp add: worker_def)

lemma worker_Panic: "t s = Panic \<Longrightarrow> recovers pl = None \<Longrightarrow> worker pl t s = Panic"
  by (simp add: worker_def)

lemma worker_recovered:
  "t s = Panic \<Longrightarrow> recovers pl = Some e \<Longrightarrow> worker pl t s = Return (Some e, s)"
  by (simp add: worker_def)

lemma runTasks_append:
  "runTasks pl (ts @ us) first s =
     (case runTasks pl ts first s of
        Panic \<Rightarrow> Panic
      | Return (first', s') \<Rightarrow> runTasks pl us first' s')"
  by (induction ts arbitrary: first s) (auto split: outcome.splits)

lemma submit_wait:
  "(case submitEach pl ts (g, s) of Panic \<Rightarrow> Panic | Return (g', s') \<Rightarrow> Wait pl g' s') =
   runTasks pl (earlyPart (early pl) (nextIndex g) ts @
             schedule (finishOrder pl) (pending g @ latePart (early pl) (nextIndex g) ts))
     (firstError g) s"
proof (induction ts arbitrary: g s)
  case Nil
  then show ?case by (simp add: Wait_def)
next
  case (Cons t ts)
  show ?case
  proof (cases "early pl (nextIndex g)")
    case True
    show ?thesis
    proof (cases "worker pl t s")
      case Panic
      then show ?thesis using True by (simp add: SubmitErr_def)
    next
      case (Return r)
      obtain err s' where r: "r = (err, s')" by (cases r)
      show ?thesis using True Return r Cons [of "g\<lparr>nextIndex := Suc (nextIndex g),
                         firstError := (if firstError g = None then err else firstError g)\<rparr>" s']
        by (simp add: SubmitErr_def)
    qed
  next
    case False
    then show ?thesis
      using Cons [of "g\<lparr>nextIndex := Suc (nextIndex g), pending := pending g @ [t]\<rparr>" s]
      by (simp add: SubmitErr_def)
  qed
qed

lemma run_counting:
  assumes "\<forall>x\<in>set xs. counting pl body bad x"
  shows "\<exists>err s'. runTasks pl (map body xs) first s = Return (err, s') \<and>
           deleted s' = deleted s + int (length (filter (\<lambda>x. \<not> bad x) xs)) \<and>
           (err = None) = (first = None \<and> (\<forall>x\<in>set xs. \<not> bad x))"
  using assms
proof (induction xs arbitrary: first s)
  case Nil
  then show ?case by simp
next
  case (Cons x xs)
  from Cons.prems have "counting pl body bad x" by simp
  then obtain e s1 where
    x: "worker pl (body x) s = Return (e, s1)" "deleted s1 = deleted s + (if bad x then 0 else 1)"
       "(e = None) = (\<not> bad x)"
    unfolding counting_def by blast
  from Cons.prems have "\<forall>y\<in>set xs. counting pl body bad y" by simp
  from Cons.IH [OF this, of "if first = None then e else first" s1]
  obtain err s' where
    r: "runTasks pl (map body xs) (if first = None then e else first) s1 = Return (err, s')"
       "deleted s' = deleted s1 + int (length (filter (\<lambda>x. \<not> bad x) xs))"
       "(err = None) = ((if first = None then e else first) = None \<and> (\<forall>x\<in>set xs. \<not> bad x))"
    by blast
  show ?case using x r by (cases "bad x") (auto split: if_splits)
qed

lemma deleteTag_counting: "Name tag \<noteq> None \<Longrightarrow> counting pl (deleteTag p) (tagFails p) tag"
  by (auto simp: counting_def worker_def deleteTag_def tagFails_def nonRecoverable_def Let_def
      split: option.splits prod.splits)

lemma logDeleteTag_counting:
  "Name tag \<noteq> None \<Longrightarrow> counting pl (logDeleteTag lg p) (tagFails p) tag"
  by (auto simp: counting_def worker_def logDeleteTag_def tagFails_def nonRecoverable_def Let_def
      split: option.splits prod.splits)

lemma deleteTag_counting_recovered:
  "recovers pl = Some e \<Longrightarrow>
   counting pl (deleteTag p) (\<lambda>t. Name t = None \<or> tagFails p t) tag"
  by (auto simp: counting_def worker_def deleteTag_def tagFails_def nonRecoverable_def Let_def
      split: option.splits prod.splits)

lemma logDeleteTag_counting_recovered:
  "recovers pl = Some e \<Longrightarrow>
   counting pl (logDeleteTag lg p) (\<lambda>t. Name t = None \<or> tagFails p t) tag"
  by (auto simp: counting_def worker_def logDeleteTag_def tagFails_def nonRecoverable_def Let_def
      split: option.splits prod.splits)

lemma manifestTask_counting: "counting pl (manifestTask p) (manifestFails p) d"
  by (auto simp: counting_def worker_def manifestTask_def deleteManifest_def manifestFails_def
      nonRecoverable_def Let_def split: option.splits prod.splits)

lemma logDeleteManifest_counting: "counting pl (logDeleteManifest lg p) (manifestFails p) d"
  by (auto simp: counting_def worker_def logDeleteManifest_def manifestFails_def
      nonRecoverable_def Let_def split: option.splits prod.splits)

lemma joined_run:
  "(case submitEach pl (map body xs) (NewGroup, s) of
      Panic \<Rightarrow> Panic
    | Return (g, s1) \<Rightarrow> (case Wait pl g s1 of Panic \<Rightarrow> Panic | Return r \<Rightarrow> F r)) =
   (case runTasks pl (map body (execOrder pl xs)) None s of Panic \<Rightarrow> Panic | Return r \<Rightarrow> F r)"
proof -
  have "(case submitEach pl (map body xs) (NewGroup, s) of
      Panic \<Rightarrow> Panic
    | Return (g, s1) \<Rightarrow> (case Wait pl g s1 of Panic \<Rightarrow> Panic | Return r \<Rightarrow> F r)) =
    (case (case submitEach pl (map body xs) (NewGroup, s) of
             Panic \<Rightarrow> Panic | Return (g, s1) \<Rightarrow> Wait pl g s1) of
       Panic \<Rightarrow> Panic | Return r \<Rightarrow> F r)"
    by (simp split: outcome.splits prod.splits)
  also have "(case submitEach pl (map body xs) (NewGroup, s) of
             Panic \<Rightarrow> Panic | Return (g, s1) \<Rightarrow> Wait pl g s1) =
      runTasks pl (map body (execOrder pl xs)) None s"
    unfolding submit_wait by (simp add: NewGroup_def execOrder_def earlyPart_map latePart_map schedule_map)
  finally show ?thesis .
qed

lemma PurgeTags_run:
  "PurgeTags p tags =
     (case runTasks (pool p) (map (deleteTag p) (execOrder (pool p) tags)) None initial of
        Panic \<Rightarrow> Panic
      | Return (err, s') \<Rightarrow> Return ((deleted s', err), s'))"
  unfolding PurgeTags_def by (rule joined_run)

lemma PurgeManifests_run:
  "PurgeManifests p ds =
     (case runTasks (pool p) (map (manifestTask p) (execOrder (pool p) ds)) None initial of
        Panic \<Rightarrow> Panic
      | Return (err, s') \<Rightarrow> Return ((deleted s', err), s'))"
  unfolding PurgeManifests_def by (rule joined_run)

lemma PurgeTags_purger_go_run:
  "PurgeTags_purger_go p tags =
     (case runTasks (pool p) (map (logDeleteTag [(FieldRepository, Str (repoName p)), (FieldTagCount, Num (int (length tags)))] p) (execOrder (pool p) tags)) None
         (initial\<lparr>printed := [LogEvent Info [(FieldRepository, Str (repoName p)), (FieldTagCount, Num (int (length tags)))] ''Starting concurrent tag deletion'']\<rparr>) of
        Panic \<Rightarrow> Panic
      | Return (err, s') \<Rightarrow> Return ((deleted s', err), s'))"
  unfolding PurgeTags_purger_go_def Let_def by (rule joined_run)

lemma count_execOrder: "length (filter P (execOrder pl xs)) = length (filter P xs)"
proof -
  have "mset (filter P (execOrder pl xs)) = mset (filter P xs)"
    by (simp add: mset_execOrder)
  then show ?thesis by (metis size_mset)
qed

lemma set_execOrder: "set (execOrder pl xs) = set xs"
  using mset_execOrder by (metis set_mset_mset)

lemma nonRecoverable_iff: "nonRecoverable r = (\<not> succeeds r \<and> \<not> failsNotFound r)"
  by (auto simp: nonRecoverable_def succeeds_def failsNotFound_def)

lemma PurgeTags_counts:
  assumes "\<forall>tag\<in>set tags. Name tag \<noteq> None"
  shows "\<exists>err s. PurgeTags p tags =
            Return ((int (length (filter (\<lambda>t. \<not> tagFails p t) tags)), err), s) \<and>
          (err = None) = (\<forall>t\<in>set tags. \<not> tagFails p t)"
proof -
  have "\<forall>x\<in>set (execOrder (pool p) tags). counting (pool p) (deleteTag p) (tagFails p) x"
    using assms by (simp add: set_execOrder deleteTag_counting)
  from run_counting [OF this, of None initial]
  show ?thesis
    by (auto simp: PurgeTags_run count_execOrder set_execOrder initial_def)
qed

lemma PurgeTags_purger_go_counts:
  assumes "\<forall>tag\<in>set tags. Name tag \<noteq> None"
  shows "\<exists>err s. PurgeTags_purger_go p tags =
            Return ((int (length (filter (\<lambda>t. \<not> tagFails p t) tags)), err), s) \<and>
          (err = None) = (\<forall>t\<in>set tags. \<not> tagFails p t)"
proof -
  let ?lg = "[(FieldRepository, Str (repoName p)), (FieldTagCount, Num (int (length tags)))]"
  have "\<forall>x\<in>set (execOrder (pool p) tags). counting (pool p) (logDeleteTag ?lg p) (tagFails p) x"
    using assms by (simp add: set_execOrder logDeleteTag_counting)
  from run_counting [OF this, of None
      "initial\<lparr>printed := [LogEvent Info ?lg ''Starting concurrent tag deletion'']\<rparr>"]
  show ?thesis
    by (auto simp: PurgeTags_purger_go_run count_execOrder set_execOrder initial_def)
qed

lemma PurgeManifests_counts:
  "\<exists>err s. PurgeManifests p ds =
            Return ((int (length (filter (\<lambda>d. \<not> manifestFails p d) ds)), err), s) \<and>
          (err = None) = (\<forall>d\<in>set ds. \<not> manifestFails p d)"
proof -
  have "\<forall>x\<in>set (execOrder (pool p) ds). counting (pool p) (manifestTask p) (manifestFails p) x"
    by (simp add: manifestTask_counting)
  from run_counting [OF this, of None initial]
  show ?thesis
    by (auto simp: PurgeManifests_run count_execOrder set_execOrder initial_def)
qed

lemma PurgeManifests_purger_go_counts:
  "\<exists>err s. PurgeManifests_purger_go p ds =
            Return ((int (length (filter (\<lambda>d. \<not> manifestFails p d) ds)), err), s) \<and>
          (err = None) = (\<forall>d\<in>set ds. \<not> manifestFails p d)"
proof -
  let ?lg = "[(FieldRepository, Str (repoName p)), (FieldManifestCount, Num (int (length ds)))]"
  let ?s0 = "initial\<lparr>printed := [LogEvent Info ?lg ''Starting concurrent manifest deletion'']\<rparr>"
  have "\<forall>x\<in>set (execOrder (pool p) ds). counting (pool p) (logDeleteManifest ?lg p) (manifestFails p) x"
    by (simp add: logDeleteManifest_counting)
  from run_counting [OF this, of None ?s0]
  obtain err s' where r: "runTasks (pool p) (map (logDeleteManifest ?lg p) (execOrder (pool p) ds)) None ?s0 = Return (err, s')"
    "deleted s' = deleted ?s0 + int (length (filter (\<lambda>d. \<not> manifestFails p d) (execOrder (pool p) ds)))"
    "(err = None) = (\<forall>d\<in>set (execOrder (pool p) ds). \<not> manifestFails p d)"
    by auto
  have "PurgeManifests_purger_go p ds =
     (case runTasks (pool p) (map (logDeleteManifest ?lg p) (execOrder (pool p) ds)) None ?s0 of
        Panic \<Rightarrow> Panic
      | Return r \<Rightarrow> (case r of (err, s') \<Rightarrow>
                  let finalCount = deleted s' in
                  Return ((finalCount, err),
                    s'\<lparr>printed := printed s' @
                         [LogEvent Info
                            (?lg @ [(FieldDeletedCount, Num finalCount),
                                    (FieldAttemptedCount, Num (int (length ds)))])
                            ''Completed manifest deletion batch'']\<rparr>)))"
    unfolding PurgeManifests_purger_go_def Let_def by (rule joined_run)
  then show ?thesis using r
    by (simp add: count_execOrder set_execOrder initial_def Let_def)
qed

lemma PurgeTags_counts_recovered:
  assumes "recovers (pool p) = Some e"
  shows "\<exists>err s. PurgeTags p tags =
            Return ((int (length (filter (\<lambda>t. Name t \<noteq> None \<and> \<not> tagFails p t) tags)), err), s) \<and>
          (err = None) = (\<forall>t\<in>set tags. Name t \<noteq> None \<and> \<not> tagFails p t)"
proof -
  have "\<forall>x\<in>set (execOrder (pool p) tags).
      counting (pool p) (deleteTag p) (\<lambda>t. Name t = None \<or> tagFails p t) x"
    using assms by (simp add: deleteTag_counting_recovered)
  from run_counting [OF this, of None initial]
  show ?thesis
    by (auto simp: PurgeTags_run count_execOrder set_execOrder initial_def)
qed

lemma PurgeTags_purger_go_counts_recovered:
  assumes "recovers (pool p) = Some e"
  shows "\<exists>err s. PurgeTags_purger_go p tags =
            Return ((int (length (filter (\<lambda>t. Name t \<noteq> None \<and> \<not> tagFails p t) tags)), err), s) \<and>
          (err = None) = (\<forall>t\<in>set tags. Name t \<noteq> None \<and> \<not> tagFails p t)"
proof -
  let ?lg = "[(FieldRepository, Str (repoName p)), (FieldTagCount, Num (int (length tags)))]"
  have "\<forall>x\<in>set (execOrder (pool p) tags).
      counting (pool p) (logDeleteTag ?lg p) (\<lambda>t. Name t = None \<or> tagFails p t) x"
    using assms by (simp add: logDeleteTag_counting_recovered)
  from run_counting [OF this, of None
      "initial\<lparr>printed := [LogEvent Info ?lg ''Starting concurrent tag deletion'']\<rparr>"]
  show ?thesis
    by (auto simp: PurgeTags_purger_go_run count_execOrder set_execOrder initial_def)
qed

lemma count_complement:
  "int (length (filter (\<lambda>x. \<not> P x) xs)) + int (length (filter P xs)) = int (length xs)"
  by (induction xs) auto

lemma filter_one_nonempty: "length (filter P xs) = 1 \<Longrightarrow> \<exists>x\<in>set xs. P x"
  by (metis filter_False length_0_conv zero_neq_one)

lemma run_panics:
  assumes "recovers pl = None"
  shows "\<exists>t\<in>set ts. \<forall>s. t s = Panic \<Longrightarrow> runTasks pl ts first s = Panic"
proof (induction ts arbitrary: first s)
  case Nil
  then show ?case by simp
next
  case (Cons t ts)
  show ?case
  proof (cases "worker pl t s")
    case Panic
    then show ?thesis by simp
  next
    case (Return r)
    then have "t s \<noteq> Panic" using assms by (auto simp: worker_def)
    with Cons.prems have "\<exists>u\<in>set ts. \<forall>s. u s = Panic" by auto
    from Cons.IH [OF this] Return show ?thesis by (simp split: prod.splits)
  qed
qed

lemma deleteTag_nil: "Name tag = None \<Longrightarrow> deleteTag p tag s = Panic"
  by (simp add: deleteTag_def)

lemma logDeleteTag_nil: "Name tag = None \<Longrightarrow> logDeleteTag lg p tag s = Panic"
  by (simp add: logDeleteTag_def)

lemma run_sameResult:
  assumes "\<And>x s s'. sameEffect s s' \<Longrightarrow> sameResult (b1 x s) (b2 x s')"
    and "sameEffect s s'"
  shows "sameResult (runTasks pl (map b1 xs) first s) (runTasks pl (map b2 xs) first s')"
  using assms(2)
proof (induction xs arbitrary: first s s')
  case Nil
  then show ?case by (simp add: sameResult_def)
next
  case (Cons x xs)
  have "sameResult (b1 x s) (b2 x s')"
    using assms(1) [OF Cons.prems] .
  then have step: "sameResult (worker pl (b1 x) s) (worker pl (b2 x) s')"
    using Cons.prems
    by (auto simp: sameResult_def worker_def split: outcome.splits option.splits)
  show ?case
  proof (cases "worker pl (b1 x) s")
    case Panic
    with step show ?thesis by (simp add: sameResult_def)
  next
    case (Return r)
    obtain e t where r: "r = (e, t)" by (cases r)
    from step Return r obtain t' where
      b2: "worker pl (b2 x) s' = Return (e, t')" and t: "sameEffect t t'"
      by (auto simp: sameResult_def split: outcome.splits)
    from Cons.IH [OF t, of "if first = None then e else first"]
    show ?thesis using Return r b2 by simp
  qed
qed

lemma deleteTag_sameResult:
  "sameEffect s s' \<Longrightarrow> sameResult (logDeleteTag lg p tag s) (deleteTag p tag s')"
  by (auto simp: sameResult_def sameEffect_def logDeleteTag_def deleteTag_def Let_def
      split: option.splits prod.splits)

lemmas example_defs = examplePurger_def exampleDelete_def okResponse_def notFoundResponse_def
  serverError_def notFoundStatus_def StatusNotFound_def initial_def inOrder_def eager_def
  page_def deletable_def NewGroup_def SubmitErr_def Wait_def worker_def manifestTask_def
  deleteManifest_def recovering_def
  waitAndReturn_def repositoryNotFound_def Let_def

lemma sweepLoop_error:
  assumes "GetAcrManifests (acrClient p) (repoName p) [] cursor = (rm, Some e)"
  shows "sweepLoop D p skip cursor (g, s) =
     Some (Return ((0, if repositoryNotFound rm then None else Some e), False, g,
       s\<lparr>calls := calls s @ [GetAcrManifestsReq (repoName p) [] cursor]\<rparr>))"
  using assms by (subst sweepLoop.simps) (simp add: Let_def)

lemma sweepLoop_break:
  assumes "GetAcrManifests (acrClient p) (repoName p) [] cursor = (rm, None)"
    and "rm = None \<or> (\<exists>r. rm = Some r \<and> (ManifestsAttributes r = None \<or> ManifestsAttributes r = Some []))"
  shows "sweepLoop D p skip cursor (g, s) =
     Some (waitAndReturn p (g, s\<lparr>calls := calls s @ [GetAcrManifestsReq (repoName p) [] cursor]\<rparr>))"
  using assms by (subst sweepLoop.simps) (auto simp: Let_def)

lemma sweepLoop_page:
  assumes "GetAcrManifests (acrClient p) (repoName p) [] cursor = (Some r, None)"
    and "ManifestsAttributes r = Some ms" and "ms \<noteq> []"
    and "submitManifests D p skip ms
           (g, s\<lparr>calls := calls s @ [GetAcrManifestsReq (repoName p) [] cursor]\<rparr>) = Return gs'"
  shows "sweepLoop D p skip cursor (g, s) =
     (case Digest (last ms) of None \<Rightarrow> Some Panic | Some d \<Rightarrow> sweepLoop D p skip d gs')"
  using assms by (subst sweepLoop.simps) (simp add: Let_def last_conv_nth)

lemma okDeletes_append: "okDeletes p (a @ b) = okDeletes p a + okDeletes p b"
  by (simp add: okDeletes_def)

lemma deleteRequests_append: "deleteRequests (a @ b) = deleteRequests a @ deleteRequests b"
  by (simp add: deleteRequests_def)

lemma listCursors_append: "listCursors (a @ b) = listCursors a @ listCursors b"
  by (induction a rule: listCursors.induct) auto

lemma manifestTask_effect:
  "\<exists>e s'. manifestTask p d s = Return (e, s') \<and>
     calls s' = calls s @ [DeleteManifestReq (repoName p) d] \<and>
     deleted s' = deleted s + okDeletes p [DeleteManifestReq (repoName p) d] \<and>
     (e = None) = (\<not> requestFailed p (DeleteManifestReq (repoName p) d))"
  by (auto simp: manifestTask_def deleteManifest_def okDeletes_def requestOk_def
      nonRecoverable_def Let_def split: prod.splits option.splits)

lemma runTasks_manifestTasks:
  "\<exists>e s'. runTasks pl (map (manifestTask p) ds) first s = Return (e, s') \<and>
     calls s' = calls s @ map (DeleteManifestReq (repoName p)) ds \<and>
     deleted s' = deleted s + okDeletes p (map (DeleteManifestReq (repoName p)) ds) \<and>
     (e = None) = (first = None \<and> (\<forall>d\<in>set ds. \<not> requestFailed p (DeleteManifestReq (repoName p) d)))"
proof (induction ds arbitrary: first s)
  case Nil
  then show ?case by (simp add: okDeletes_def)
next
  case (Cons d ds)
  from manifestTask_effect [of p d s] obtain e s1 where
    t: "manifestTask p d s = Return (e, s1)"
       "calls s1 = calls s @ [DeleteManifestReq (repoName p) d]"
       "deleted s1 = deleted s + okDeletes p [DeleteManifestReq (repoName p) d]"
       "(e = None) = (\<not> requestFailed p (DeleteManifestReq (repoName p) d))"
    by blast
  from Cons.IH [of "if first = None then e else first" s1] obtain e' s' where
    r: "runTasks pl (map (manifestTask p) ds) (if first = None then e else first) s1 = Return (e', s')"
       "calls s' = calls s1 @ map (DeleteManifestReq (repoName p)) ds"
       "deleted s' = deleted s1 + okDeletes p (map (DeleteManifestReq (repoName p)) ds)"
       "(e' = None) = ((if first = None then e else first) = None \<and>
          (\<forall>d\<in>set ds. \<not> requestFailed p (DeleteManifestReq (repoName p) d)))"
    by blast
  have "okDeletes p (map (DeleteManifestReq (repoName p)) (d # ds)) =
      okDeletes p [DeleteManifestReq (repoName p) d] + okDeletes p (map (DeleteManifestReq (repoName p)) ds)"
    by (simp add: okDeletes_def)
  with t r worker_Return [of "manifestTask p d" s "(e, s1)" pl, OF t(1)] show ?case by (auto split: if_splits)
qed

lemma sweepInvE:
  assumes "sweepInv p M (g, s)"
  obtains ds where "pending g = map (manifestTask p) ds"
    and "mset (deleteRequests (calls s)) + mset (map (DeleteManifestReq (repoName p)) ds) = M"
    and "deleted s = okDeletes p (calls s)"
    and "(firstError g = None) = (\<forall>r\<in>set (calls s). \<not> requestFailed p r)"
  using assms unfolding sweepInv_def prod.case by (elim exE conjE) (rule that; assumption)

lemma sweepInvI:
  assumes "pending g = map (manifestTask p) ds"
    and "mset (deleteRequests (calls s)) + mset (map (DeleteManifestReq (repoName p)) ds) = M"
    and "deleted s = okDeletes p (calls s)"
    and "(firstError g = None) = (\<forall>r\<in>set (calls s). \<not> requestFailed p r)"
  shows "sweepInv p M (g, s)"
  unfolding sweepInv_def prod.case using assms by (intro exI [of _ ds] conjI)

lemma SubmitErr_inv:
  assumes "sweepInv p M (g, s)"
  shows "\<exists>g' s'. SubmitErr pl (manifestTask p d) (g, s) = Return (g', s') \<and>
           sweepInv p (M + {#DeleteManifestReq (repoName p) d#}) (g', s') \<and>
           listCursors (calls s') = listCursors (calls s)"
proof -
  from assms obtain ds where
    i: "pending g = map (manifestTask p) ds"
       "mset (deleteRequests (calls s)) + mset (map (DeleteManifestReq (repoName p)) ds) = M"
       "deleted s = okDeletes p (calls s)"
       "(firstError g = None) = (\<forall>r\<in>set (calls s). \<not> requestFailed p r)"
    by (rule sweepInvE)
  show ?thesis
  proof (cases "early pl (nextIndex g)")
    case True
    from manifestTask_effect [of p d s] obtain e s1 where
      t: "manifestTask p d s = Return (e, s1)"
         "calls s1 = calls s @ [DeleteManifestReq (repoName p) d]"
         "deleted s1 = deleted s + okDeletes p [DeleteManifestReq (repoName p) d]"
         "(e = None) = (\<not> requestFailed p (DeleteManifestReq (repoName p) d))"
      by blast
    let ?g = "g\<lparr>nextIndex := Suc (nextIndex g),
                 firstError := (if firstError g = None then e else firstError g)\<rparr>"
    have "SubmitErr pl (manifestTask p d) (g, s) = Return (?g, s1)"
      using True worker_Return [of "manifestTask p d" s "(e, s1)" pl, OF t(1)] by (simp add: SubmitErr_def)
    moreover have "sweepInv p (M + {#DeleteManifestReq (repoName p) d#}) (?g, s1)"
    proof (rule sweepInvI [of _ _ ds])
      show "pending ?g = map (manifestTask p) ds" using i(1) by simp
      show "mset (deleteRequests (calls s1)) + mset (map (DeleteManifestReq (repoName p)) ds) =
          M + {#DeleteManifestReq (repoName p) d#}"
        using i(2) t(2) by (auto simp: deleteRequests_def)
      show "deleted s1 = okDeletes p (calls s1)"
        using i(3) t(2,3) by (simp add: okDeletes_append)
      show "(firstError ?g = None) = (\<forall>r\<in>set (calls s1). \<not> requestFailed p r)"
        using i(4) t(2,4) by auto
    qed
    moreover have "listCursors (calls s1) = listCursors (calls s)"
      using t(2) by (simp add: listCursors_append)
    ultimately show ?thesis by blast
  next
    case False
    let ?g = "g\<lparr>nextIndex := Suc (nextIndex g), pending := pending g @ [manifestTask p d]\<rparr>"
    have "SubmitErr pl (manifestTask p d) (g, s) = Return (?g, s)"
      using False by (simp add: SubmitErr_def)
    moreover have "sweepInv p (M + {#DeleteManifestReq (repoName p) d#}) (?g, s)"
      using i by (intro sweepInvI [of _ _ "ds @ [d]"]) simp_all
    ultimately show ?thesis by blast
  qed
qed

lemma submitManifests_inv:
  assumes "sweepInv p M gs"
  shows "\<exists>gs'. submitManifests D p skip ms gs = Return gs' \<and>
           sweepInv p (M + mset (map (DeleteManifestReq (repoName p)) (eligible D skip ms))) gs' \<and>
           listCursors (calls (snd gs')) = listCursors (calls (snd gs))"
  using assms
proof (induction ms arbitrary: M gs)
  case Nil
  then show ?case by simp
next
  case (Cons m ms)
  show ?case
  proof (cases "\<exists>d. Digest m = Some d \<and> D m \<and> d \<notin> skip")
    case False
    then have "submitManifests D p skip (m # ms) gs = submitManifests D p skip ms gs"
      "eligible D skip (m # ms) = eligible D skip ms"
      by (auto split: option.splits)
    with Cons.IH [OF Cons.prems] show ?thesis by simp
  next
    case True
    then obtain d where d: "Digest m = Some d" "D m" "d \<notin> skip" by blast
    obtain g s where gs: "gs = (g, s)" by (cases gs)
    from SubmitErr_inv [OF Cons.prems [unfolded gs], of "pool p" d] obtain g1 s1 where
      s: "SubmitErr (pool p) (manifestTask p d) (g, s) = Return (g1, s1)"
         "sweepInv p (M + {#DeleteManifestReq (repoName p) d#}) (g1, s1)"
         "listCursors (calls s1) = listCursors (calls s)"
      by blast
    from Cons.IH [OF s(2)] obtain gs' where
      r: "submitManifests D p skip ms (g1, s1) = Return gs'"
         "sweepInv p (M + {#DeleteManifestReq (repoName p) d#} +
            mset (map (DeleteManifestReq (repoName p)) (eligible D skip ms))) gs'"
         "listCursors (calls (snd gs')) = listCursors (calls (snd (g1, s1)))"
      by blast
    have "submitManifests D p skip (m # ms) gs = Return gs'"
      using d s(1) r(1) gs by simp
    moreover have "eligible D skip (m # ms) = d # eligible D skip ms"
      using d by simp
    ultimately show ?thesis using r(2,3) s(3) gs by (simp add: add.commute add.left_commute)
  qed
qed

lemma set_schedule: "set (schedule ks xs) = set xs"
  using mset_schedule by (metis set_mset_mset)

lemma waitAndReturn_inv:
  assumes "sweepInv p M (g, s)"
  shows "\<exists>n err s'. waitAndReturn p (g, s) = Return ((n, err), True, g\<lparr>pending := []\<rparr>, s') \<and>
           n = okDeletes p (calls s') \<and>
           mset (deleteRequests (calls s')) = M \<and>
           (err = None) = (\<forall>r\<in>set (calls s'). \<not> requestFailed p r) \<and>
           listCursors (calls s') = listCursors (calls s)"
proof -
  from assms obtain ds where
    i: "pending g = map (manifestTask p) ds"
       "mset (deleteRequests (calls s)) + mset (map (DeleteManifestReq (repoName p)) ds) = M"
       "deleted s = okDeletes p (calls s)"
       "(firstError g = None) = (\<forall>r\<in>set (calls s). \<not> requestFailed p r)"
    by (rule sweepInvE)
  let ?ds = "schedule (finishOrder (pool p)) ds"
  have w: "Wait (pool p) g s = runTasks (pool p) (map (manifestTask p) ?ds) (firstError g) s"
    by (simp add: Wait_def i(1) schedule_map)
  from runTasks_manifestTasks [of "pool p" p ?ds "firstError g" s] obtain e s' where
    r: "runTasks (pool p) (map (manifestTask p) ?ds) (firstError g) s = Return (e, s')"
       "calls s' = calls s @ map (DeleteManifestReq (repoName p)) ?ds"
       "deleted s' = deleted s + okDeletes p (map (DeleteManifestReq (repoName p)) ?ds)"
       "(e = None) = (firstError g = None \<and>
          (\<forall>d\<in>set ?ds. \<not> requestFailed p (DeleteManifestReq (repoName p) d)))"
    by blast
  have 1: "waitAndReturn p (g, s) = Return ((deleted s', e), True, g\<lparr>pending := []\<rparr>, s')"
    by (simp add: waitAndReturn_def w r(1))
  have 2: "deleted s' = okDeletes p (calls s')"
    using r(2,3) i(3) by (simp add: okDeletes_append)
  have "deleteRequests (map (DeleteManifestReq (repoName p)) ?ds) = map (DeleteManifestReq (repoName p)) ?ds"
    by (simp add: deleteRequests_def)
  then have 3: "mset (deleteRequests (calls s')) = M"
    using r(2) i(2) by (simp add: deleteRequests_append mset_schedule)
  have 4: "(e = None) = (\<forall>r\<in>set (calls s'). \<not> requestFailed p r)"
    unfolding r(2,4) i(4) by (simp add: set_schedule ball_Un)
  have 5: "listCursors (calls s') = listCursors (calls s)"
  proof -
    have "listCursors (map (DeleteManifestReq (repoName p)) xs) = []" for xs
      by (induction xs) auto
    then show ?thesis using r(2) by (simp add: listCursors_append)
  qed
  show ?thesis using 1 2 3 4 5 by blast
qed

lemma list_call_inv:
  assumes "sweepInv p M (g, s)"
  shows "sweepInv p M (g, s\<lparr>calls := calls s @ [GetAcrManifestsReq repo query cursor]\<rparr>)"
proof -
  from assms obtain ds where
    i: "pending g = map (manifestTask p) ds"
       "mset (deleteRequests (calls s)) + mset (map (DeleteManifestReq (repoName p)) ds) = M"
       "deleted s = okDeletes p (calls s)"
       "(firstError g = None) = (\<forall>r\<in>set (calls s). \<not> requestFailed p r)"
    by (rule sweepInvE)
  show ?thesis
    using i by (intro sweepInvI [of _ _ ds])
      (simp_all add: deleteRequests_def okDeletes_def requestOk_def)
qed

lemma sweepLoop_post:
  "sweepLoop D p skip cursor gs = Some res \<Longrightarrow>
   sweepInv p (mset (expected D p skip (listCursors (calls (snd gs))))) gs \<and>
   listedOk p (calls (snd gs)) \<longrightarrow>
   sweepPost D p skip res"
proof (induction D p skip cursor gs res rule: sweepLoop.raw_induct [rotated 1, consumes 1, case_names 1])
  case (1 loop D p skip cursor gs res)
  show ?case
  proof
  assume "sweepInv p (mset (expected D p skip (listCursors (calls (snd gs))))) gs \<and>
    listedOk p (calls (snd gs))"
  then have inv: "sweepInv p (mset (expected D p skip (listCursors (calls (snd gs))))) gs"
    and ok: "listedOk p (calls (snd gs))" by simp_all
  obtain g s0 where gs: "gs = (g, s0)" by (cases gs)
  obtain rm err where l: "GetAcrManifests (acrClient p) (repoName p) [] cursor = (rm, err)"
    by (cases "GetAcrManifests (acrClient p) (repoName p) [] cursor")
  let ?s = "s0\<lparr>calls := calls s0 @ [GetAcrManifestsReq (repoName p) [] cursor]\<rparr>"
  let ?L = "listCursors (calls s0)"
  have cur: "listCursors (calls ?s) = ?L @ [cursor]"
    by (simp add: listCursors_append)
  have exp: "expected D p skip (?L @ [cursor]) =
      expected D p skip ?L @ map (DeleteManifestReq (repoName p)) (eligible D skip (pageAt p cursor))"
    by (simp add: expected_def)
  from inv have inv0: "sweepInv p (mset (expected D p skip ?L)) (g, ?s)"
    unfolding gs by (simp add: list_call_inv)
  show "sweepPost D p skip res"
  proof (cases err)
    case (Some e)
    with 1(2) l gs have res:
      "res = Return ((0, if repositoryNotFound rm then None else Some e), False, g, ?s)"
      by (auto simp: Let_def split: if_splits)
    have "\<exists>c rm' e'.
        GetAcrManifests (acrClient p) (repoName p) [] c = (rm', Some e') \<and>
        calls ?s \<noteq> [] \<and>
        last (calls ?s) = GetAcrManifestsReq (repoName p) [] c \<and>
        (0, if repositoryNotFound rm then None else Some e) =
          (0::int, if repositoryNotFound rm' then None else Some e')"
      using l Some by (intro exI [of _ cursor] exI [of _ rm] exI [of _ e]) simp
    then show ?thesis
      unfolding res by (simp add: sweepPost_def hasWaited_def returned_def finalState_def)
  next
    case None
    have ok': "listedOk p (calls ?s)"
      using ok l None unfolding gs by (simp add: listedOk_def listCursors_append)
    show ?thesis
    proof (cases "pageAt p cursor = []")
      case True
      then have "res = waitAndReturn p (g, ?s)"
        using 1(2) l gs None
        by (auto simp: pageAt_def Let_def split: option.splits if_splits)
      moreover from waitAndReturn_inv [OF inv0] obtain n e s' where
        "waitAndReturn p (g, ?s) = Return ((n, e), True, g\<lparr>pending := []\<rparr>, s')"
        "n = okDeletes p (calls s')"
        "mset (deleteRequests (calls s')) = mset (expected D p skip ?L)"
        "(e = None) = (\<forall>r\<in>set (calls s'). \<not> requestFailed p r)"
        "listCursors (calls s') = listCursors (calls ?s)"
        by blast
      ultimately show ?thesis
        using True cur exp ok'
        by (simp add: sweepPost_def hasWaited_def returned_def finalState_def listedOk_def)
    next
      case False
      then obtain r ms where
        p: "rm = Some r" "ManifestsAttributes r = Some ms" "ms \<noteq> []" "pageAt p cursor = ms"
        using l None by (auto simp: pageAt_def split: option.splits)
      from submitManifests_inv [OF inv0, of D skip ms] obtain gs' where
        s: "submitManifests D p skip ms (g, ?s) = Return gs'"
           "sweepInv p (mset (expected D p skip ?L) +
              mset (map (DeleteManifestReq (repoName p)) (eligible D skip ms))) gs'"
           "listCursors (calls (snd gs')) = listCursors (calls (snd (g, ?s)))"
        by blast
      have inv': "sweepInv p (mset (expected D p skip (listCursors (calls (snd gs'))))) gs' \<and>
          listedOk p (calls (snd gs'))"
        using s(2,3) cur exp p(4) ok' by (simp add: listedOk_def)
      show ?thesis
      proof (cases "Digest (ms ! (length ms - 1))")
        case None
        then have "res = Panic"
          using 1(2) l gs \<open>err = None\<close> p s(1) by (simp add: Let_def)
        then show ?thesis by (simp add: sweepPost_def)
      next
        case (Some d)
        then have "loop D p skip d gs' = Some res"
          using 1(2) l gs \<open>err = None\<close> p s(1) by (simp add: Let_def)
        from 1(1) [OF this] inv' show ?thesis by blast
      qed
    qed
  qed
  qed
qed

lemma initial_inv: "sweepInv p {#} (NewGroup, initial)"
  by (rule sweepInvI [of _ _ "[]"])
    (simp_all add: NewGroup_def initial_def deleteRequests_def okDeletes_def)

lemma sweepLoop_page_inv:
  assumes "GetAcrManifests (acrClient p) (repoName p) [] cursor = (Some r, None)"
    and "ManifestsAttributes r = Some ms" and "ms \<noteq> []" and "Digest (last ms) = Some d"
    and "sweepInv p M (g, s)"
  shows "\<exists>gs'. sweepLoop D p skip cursor (g, s) = sweepLoop D p skip d gs' \<and>
           sweepInv p (M + mset (map (DeleteManifestReq (repoName p)) (eligible D skip ms))) gs' \<and>
           listCursors (calls (snd gs')) = listCursors (calls s) @ [cursor]"
proof -
  let ?s = "s\<lparr>calls := calls s @ [GetAcrManifestsReq (repoName p) [] cursor]\<rparr>"
  from submitManifests_inv [OF list_call_inv [OF assms(5)], of D skip ms "repoName p" "[]" cursor]
  obtain gs' where
    s: "submitManifests D p skip ms (g, ?s) = Return gs'"
       "sweepInv p (M + mset (map (DeleteManifestReq (repoName p)) (eligible D skip ms))) gs'"
       "listCursors (calls (snd gs')) = listCursors (calls (snd (g, ?s)))"
    by blast
  from sweepLoop_page [OF assms(1-3) s(1)] assms(4)
  have "sweepLoop D p skip cursor (g, s) = sweepLoop D p skip d gs'" by simp
  moreover have "listCursors (calls (snd gs')) = listCursors (calls s) @ [cursor]"
    using s(3) by (simp add: listCursors_append)
  ultimately show ?thesis using s(2) by (intro exI [of _ gs'] conjI)
qed

lemma sweepLoop_break_inv:
  assumes "GetAcrManifests (acrClient p) (repoName p) [] cursor = (rm, None)"
    and "rm = None \<or> (\<exists>r. rm = Some r \<and> (ManifestsAttributes r = None \<or> ManifestsAttributes r = Some []))"
    and "sweepInv p M (g, s)"
  shows "\<exists>n err s'. sweepLoop D p skip cursor (g, s) =
             Some (Return ((n, err), True, g\<lparr>pending := []\<rparr>, s')) \<and>
           n = okDeletes p (calls s') \<and>
           mset (deleteRequests (calls s')) = M \<and>
           (err = None) = (\<forall>r\<in>set (calls s'). \<not> requestFailed p r) \<and>
           listCursors (calls s') = listCursors (calls s) @ [cursor]"
proof -
  let ?s = "s\<lparr>calls := calls s @ [GetAcrManifestsReq (repoName p) [] cursor]\<rparr>"
  from waitAndReturn_inv [OF list_call_inv [OF assms(3)], of "repoName p" "[]" cursor]
  obtain n err s' where
    "waitAndReturn p (g, ?s) = Return ((n, err), True, g\<lparr>pending := []\<rparr>, s')"
    "n = okDeletes p (calls s')"
    "mset (deleteRequests (calls s')) = M"
    "(err = None) = (\<forall>r\<in>set (calls s'). \<not> requestFailed p r)"
    "listCursors (calls s') = listCursors (calls ?s)"
    by blast
  then show ?thesis
    unfolding sweepLoop_break [OF assms(1,2)] by (auto simp: listCursors_append)
qed

lemma runTasks_keeps:
  assumes "\<And>t s e s'. t \<in> set ts \<Longrightarrow> P s \<Longrightarrow> t s = Return (e, s') \<Longrightarrow> P s'"
    and "P s" and "runTasks pl ts first s = Return (e, s')"
  shows "P s'"
  using assms
proof (induction ts arbitrary: first s)
  case Nil
  then show ?case by simp
next
  case (Cons t ts)
  from Cons.prems(3) obtain e1 s1 where
    t: "worker pl t s = Return (e1, s1)"
    and r: "runTasks pl ts (if first = None then e1 else first) s1 = Return (e, s')"
    by (auto split: outcome.splits)
  have "P s1"
  proof (cases "t s")
    case Panic
    with t have "s1 = s" by (auto simp: worker_def split: option.splits)
    with Cons.prems(2) show ?thesis by simp
  next
    case (Return r)
    with t have "t s = Return (e1, s1)" by (simp add: worker_def)
    with Cons.prems(1) [of t s e1 s1] Cons.prems(2) show ?thesis by simp
  qed
  from Cons.IH [OF _ this r] Cons.prems(1) show ?case by auto
qed

lemma deleteTag_counted:
  "counted p s \<Longrightarrow> deleteTag p tag s = Return (e, s') \<Longrightarrow> counted p s'"
  by (auto simp: counted_def deleteTag_def okDeletes_def requestOk_def nonRecoverable_def Let_def
      split: option.splits prod.splits if_splits)

lemma logDeleteTag_counted:
  "counted p s \<Longrightarrow> logDeleteTag lg p tag s = Return (e, s') \<Longrightarrow> counted p s'"
  by (auto simp: counted_def logDeleteTag_def okDeletes_def requestOk_def nonRecoverable_def Let_def
      split: option.splits prod.splits if_splits)

lemma manifestTask_counted:
  "counted p s \<Longrightarrow> manifestTask p d s = Return (e, s') \<Longrightarrow> counted p s'"
  by (auto simp: counted_def manifestTask_def deleteManifest_def okDeletes_def requestOk_def
      nonRecoverable_def Let_def split: option.splits prod.splits if_splits)

lemma logDeleteManifest_counted:
  "counted p s \<Longrightarrow> logDeleteManifest lg p d s = Return (e, s') \<Longrightarrow> counted p s'"
  by (auto simp: counted_def logDeleteManifest_def okDeletes_def requestOk_def
      nonRecoverable_def Let_def split: option.splits prod.splits if_splits)

lemma run_counted:
  assumes "\<And>x s e s'. counted p s \<Longrightarrow> body x s = Return (e, s') \<Longrightarrow> counted p s'"
    and "counted p s" and "runTasks pl (map body xs) first s = Return (e, s')"
  shows "deleted s' = okDeletes p (calls s')"
proof -
  have "counted p s'"
    using runTasks_keeps [of "map body xs" "counted p" s pl first e s'] assms by auto
  then show ?thesis by (simp add: counted_def)
qed

lemma PurgeManifests_purger_go_run:
  "PurgeManifests_purger_go p ds =
     (case runTasks (pool p) (map (logDeleteManifest
              [(FieldRepository, Str (repoName p)), (FieldManifestCount, Num (int (length ds)))] p)
            (execOrder (pool p) ds)) None
          (initial\<lparr>printed := [LogEvent Info
              [(FieldRepository, Str (repoName p)), (FieldManifestCount, Num (int (length ds)))]
              ''Starting concurrent manifest deletion'']\<rparr>) of
        Panic \<Rightarrow> Panic
      | Return r \<Rightarrow> (case r of (err, s') \<Rightarrow>
                  let finalCount = deleted s' in
                  Return ((finalCount, err),
                    s'\<lparr>printed := printed s' @
                         [LogEvent Info
                            ([(FieldRepository, Str (repoName p)),
                              (FieldManifestCount, Num (int (length ds)))] @
                             [(FieldDeletedCount, Num finalCount),
                              (FieldAttemptedCount, Num (int (length ds)))])
                            ''Completed manifest deletion batch'']\<rparr>)))"
  unfolding PurgeManifests_purger_go_def Let_def by (rule joined_run)

lemma counted_initial: "counted p initial" "counted p (initial\<lparr>printed := out\<rparr>)"
  by (simp_all add: counted_def initial_def okDeletes_def)

lemma PurgeTags_counted:
  assumes "PurgeTags p tags = Return ((n, err), s)"
  shows "n = okDeletes p (calls s)"
proof -
  from assms have "runTasks (pool p) (map (deleteTag p) (execOrder (pool p) tags)) None initial = Return (err, s)"
    and n: "n = deleted s"
    unfolding PurgeTags_run by (auto split: outcome.splits)
  from run_counted [OF deleteTag_counted counted_initial(1) this(1)] n show ?thesis by simp
qed

lemma PurgeManifests_counted:
  assumes "PurgeManifests p ds = Return ((n, err), s)"
  shows "n = okDeletes p (calls s)"
proof -
  from assms have "runTasks (pool p) (map (manifestTask p) (execOrder (pool p) ds)) None initial = Return (err, s)"
    and n: "n = deleted s"
    unfolding PurgeManifests_run by (auto split: outcome.splits)
  from run_counted [OF manifestTask_counted counted_initial(1) this(1)] n show ?thesis by simp
qed

lemma PurgeTags_purger_go_counted:
  assumes "PurgeTags_purger_go p tags = Return ((n, err), s)"
  shows "n = okDeletes p (calls s)"
proof -
  let ?lg = "[(FieldRepository, Str (repoName p)), (FieldTagCount, Num (int (length tags)))]"
  let ?s0 = "initial\<lparr>printed := [LogEvent Info ?lg ''Starting concurrent tag deletion'']\<rparr>"
  from assms have "runTasks (pool p) (map (logDeleteTag ?lg p) (execOrder (pool p) tags)) None ?s0 = Return (err, s)"
    and n: "n = deleted s"
    unfolding PurgeTags_purger_go_run by (auto split: outcome.splits)
  from run_counted [OF logDeleteTag_counted counted_initial(2) this(1)] n show ?thesis by simp
qed

lemma PurgeManifests_purger_go_counted:
  assumes "PurgeManifests_purger_go p ds = Return ((n, err), s)"
  shows "n = okDeletes p (calls s)"
proof -
  let ?lg = "[(FieldRepository, Str (repoName p)), (FieldManifestCount, Num (int (length ds)))]"
  let ?s0 = "initial\<lparr>printed := [LogEvent Info ?lg ''Starting concurrent manifest deletion'']\<rparr>"
  from assms obtain s1 where
    "runTasks (pool p) (map (logDeleteManifest ?lg p) (execOrder (pool p) ds)) None ?s0 = Return (err, s1)"
    and n: "n = deleted s1" and c: "calls s = calls s1"
    unfolding PurgeManifests_purger_go_run by (auto simp: Let_def split: outcome.splits)
  from run_counted [OF logDeleteManifest_counted counted_initial(2) this(1)] n c
  show ?thesis by simp
qed

lemma PurgeUntaggedManifests_post:
  "PurgeUntaggedManifests D p skip = Some res \<Longrightarrow> sweepPost D p skip res"
  unfolding PurgeUntaggedManifests_def
  using sweepLoop_post [of D p skip "[]" "(NewGroup, initial)" res] initial_inv [of p]
  by (simp add: initial_def expected_def listedOk_def)

lemma submitManifests_skips:
  assumes "Digest m = None \<or> \<not> D m \<or> (\<exists>d. Digest m = Some d \<and> d \<in> skip)"
  shows "submitManifests D p skip (xs @ m # ys) gs = submitManifests D p skip (xs @ ys) gs"
proof (induction xs arbitrary: gs)
  case Nil
  from assms show ?case by (auto split: option.splits)
next
  case (Cons x xs)
  then show ?case by (simp split: option.splits outcome.splits)
qed

lemma eligible_iff:
  "(d \<in> set (eligible D skip ms)) = (\<exists>m\<in>set ms. Digest m = Some d \<and> D m \<and> d \<notin> skip)"
  by (induction ms) (auto split: option.splits)

lemma filter_mset_all: "(\<forall>x\<in>#M. P x) \<Longrightarrow> filter_mset P M = M"
  by (induction M) auto

lemma okDeletes_mset:
  "okDeletes p rs = int (size (filter_mset (requestOk p) (mset (deleteRequests rs))))"
proof -
  have "filter (requestOk p) (filter isDelete rs) = filter (requestOk p) rs"
    by (induction rs) (auto simp: requestOk_def)
  then have "length (filter (requestOk p) rs) =
      size (filter_mset (requestOk p) (mset (deleteRequests rs)))"
    unfolding deleteRequests_def by (metis mset_filter size_mset)
  then show ?thesis by (simp add: okDeletes_def)
qed

lemma single_page_sweep:
  assumes "GetAcrManifests (acrClient p) (repoName p) [] [] = (Some r1, None)"
    and "ManifestsAttributes r1 = Some ms" and "ms \<noteq> []" and "Digest (last ms) = Some c"
    and "GetAcrManifests (acrClient p) (repoName p) [] c = (rm2, None)"
    and "rm2 = None \<or>
         (\<exists>r2. rm2 = Some r2 \<and> (ManifestsAttributes r2 = None \<or> ManifestsAttributes r2 = Some []))"
    and ok: "\<forall>d\<in>set (eligible D skip ms).
          succeeds (DeleteManifest (acrClient p) (repoName p) d) \<or>
          failsNotFound (DeleteManifest (acrClient p) (repoName p) d)"
  shows "\<exists>r. PurgeUntaggedManifests D p skip = Some (Return r) \<and>
           returned r = (int (length (eligible D skip ms)), None) \<and>
           mset (deleteRequests (calls (finalState r))) =
             mset (map (DeleteManifestReq (repoName p)) (eligible D skip ms))"
proof -
  let ?M = "mset (map (DeleteManifestReq (repoName p)) (eligible D skip ms))"
  from sweepLoop_page_inv [OF assms(1-4) initial_inv, of D skip]
  obtain gs1 where
    1: "sweepLoop D p skip [] (NewGroup, initial) = sweepLoop D p skip c gs1"
       "sweepInv p ({#} + ?M) gs1"
    by auto
  obtain g1 s1 where gs1: "gs1 = (g1, s1)" by (cases gs1)
  from sweepLoop_break_inv [OF assms(5,6) 1(2) [unfolded gs1], of D skip]
  obtain n err s' where
    2: "sweepLoop D p skip c (g1, s1) = Some (Return ((n, err), True, g1\<lparr>pending := []\<rparr>, s'))"
       "n = okDeletes p (calls s')"
       "mset (deleteRequests (calls s')) = ?M"
       "(err = None) = (\<forall>r\<in>set (calls s'). \<not> requestFailed p r)"
    by auto
  have good: "\<forall>r\<in>#?M. requestOk p r"
    using ok by (auto simp: requestOk_def nonRecoverable_iff)
  have n: "n = int (length (eligible D skip ms))"
    unfolding 2(2) okDeletes_mset 2(3) filter_mset_all [OF good] by simp
  have "\<not> requestFailed p r" if "r \<in> set (calls s')" for r
  proof (cases "isDelete r")
    case True
    with that have "r \<in># mset (deleteRequests (calls s'))" by (simp add: deleteRequests_def)
    with good show ?thesis unfolding 2(3) by (auto simp: requestOk_def)
  next
    case False
    then show ?thesis by (cases r) auto
  qed
  with 2(4) have e: "err = None" by blast
  have "PurgeUntaggedManifests D p skip = Some (Return ((n, err), True, g1\<lparr>pending := []\<rparr>, s'))"
    unfolding PurgeUntaggedManifests_def using 1(1) 2(1) gs1 by simp
  with n e 2(3) show ?thesis by (simp add: returned_def finalState_def)
qed

section \<open>Claims\<close>

text \<open>
  Claim C1. The loop over a page skips a record whose digest is nil, but the cursor is then
  taken from the last record of the page with \<^verbatim>\<open>*manifests[len(manifests)-1].Digest\<close> and
  no nil check: on a page whose last record has no digest the sweep panics. Here the first
  page holds a record with a digest and then one without.
\<close>

theorem sweep_panics_when_last_digest_is_nil:
  "PurgeUntaggedManifests deletable (examplePurger inOrder nilDigestLast) {} = Some Panic"
  by (simp add: PurgeUntaggedManifests_def sweepLoop.simps example_defs nilDigestLast_def)

text \<open>
  Claim C2, as amended. \<^verbatim>\<open>PurgeTags\<close> and \<^verbatim>\<open>PurgeManifests\<close>, in either version, return
  with or without an error the number of delete requests that succeeded or were answered
  not-found. \<^verbatim>\<open>PurgeUntaggedManifests\<close> does so when it returns after waiting for its
  group: then no list call has failed, and its error is nil exactly when no delete request
  failed. A list call that fails makes it return at once, without waiting, count \<open>0\<close> and
  the error of that call, or nil when the call reports repository-not-found; and whenever it
  returns without waiting, that is what it returns, for the list call it made last.
\<close>

theorem returned_count_is_the_counter:
  "(PurgeTags p tags = Return ((n, err), s) \<longrightarrow> n = okDeletes p (calls s)) \<and>
   (PurgeTags_purger_go p tags = Return ((n, err), s) \<longrightarrow> n = okDeletes p (calls s)) \<and>
   (PurgeManifests p manifests = Return ((n, err), s) \<longrightarrow> n = okDeletes p (calls s)) \<and>
   (PurgeManifests_purger_go p manifests = Return ((n, err), s) \<longrightarrow> n = okDeletes p (calls s)) \<and>
   (PurgeUntaggedManifests D p skip = Some (Return r) \<longrightarrow>
      (if hasWaited r then
         fst (returned r) = okDeletes p (calls (finalState r)) \<and>
         (snd (returned r) = None) = (\<forall>q\<in>set (calls (finalState r)). \<not> requestFailed p q) \<and>
         (\<forall>c\<in>set (listCursors (calls (finalState r))).
             snd (GetAcrManifests (acrClient p) (repoName p) [] c) = None)
       else
         (\<exists>cursor rm e.
            GetAcrManifests (acrClient p) (repoName p) [] cursor = (rm, Some e) \<and>
            calls (finalState r) \<noteq> [] \<and>
            last (calls (finalState r)) = GetAcrManifestsReq (repoName p) [] cursor \<and>
            returned r = (0, if repositoryNotFound rm then None else Some e)))) \<and>
   (GetAcrManifests (acrClient p) (repoName p) [] cursor = (rm, Some e) \<longrightarrow>
      map_option (map_outcome returned) (sweepLoop D p skip cursor gs) =
        Some (Return (0, if repositoryNotFound rm then None else Some e)) \<and>
      map_option (map_outcome hasWaited) (sweepLoop D p skip cursor gs) = Some (Return False))"
proof (intro conjI impI)
  assume "PurgeUntaggedManifests D p skip = Some (Return r)"
  from PurgeUntaggedManifests_post [OF this]
  show "if hasWaited r then
         fst (returned r) = okDeletes p (calls (finalState r)) \<and>
         (snd (returned r) = None) = (\<forall>q\<in>set (calls (finalState r)). \<not> requestFailed p q) \<and>
         (\<forall>c\<in>set (listCursors (calls (finalState r))).
             snd (GetAcrManifests (acrClient p) (repoName p) [] c) = None)
       else
         (\<exists>cursor rm e.
            GetAcrManifests (acrClient p) (repoName p) [] cursor = (rm, Some e) \<and>
            calls (finalState r) \<noteq> [] \<and>
            last (calls (finalState r)) = GetAcrManifestsReq (repoName p) [] cursor \<and>
            returned r = (0, if repositoryNotFound rm then None else Some e))"
    by (simp add: sweepPost_def listedOk_def split: if_splits)
next
  assume l: "GetAcrManifests (acrClient p) (repoName p) [] cursor = (rm, Some e)"
  obtain g s0 where gs: "gs = (g, s0)" by (cases gs)
  show "map_option (map_outcome returned) (sweepLoop D p skip cursor gs) =
        Some (Return (0, if repositoryNotFound rm then None else Some e))"
    unfolding gs sweepLoop_error [OF l] by (simp add: returned_def)
  show "map_option (map_outcome hasWaited) (sweepLoop D p skip cursor gs) = Some (Return False)"
    unfolding gs sweepLoop_error [OF l] by (simp add: hasWaited_def)
qed (simp_all add: PurgeTags_counted PurgeTags_purger_go_counted PurgeManifests_counted
    PurgeManifests_purger_go_counted)

theorem returned_count_is_the_counter_witness:
  "PurgeManifests (examplePurger inOrder brokenOnFirstPage) [''broken'', ''sha256:a''] =
     Return ((1, Some (Error ''internal server error'')),
       \<lparr>deleted = 1,
        calls = [DeleteManifestReq ''app'' ''broken'', DeleteManifestReq ''app'' ''sha256:a''],
        printed = [Printf ''Failed to delete %s/%s@%s, error: %v\<newline>''
                     [Str ''example.azurecr.io'', Str ''app'', Str ''broken'',
                      Err (Some (Error ''internal server error''))],
                   Printf ''Deleted %s/%s@%s\<newline>''
                     [Str ''example.azurecr.io'', Str ''app'', Str ''sha256:a'']]\<rparr>) \<and>
   okDeletes (examplePurger inOrder brokenOnFirstPage)
     [DeleteManifestReq ''app'' ''broken'', DeleteManifestReq ''app'' ''sha256:a''] = 1 \<and>
   map_option (map_outcome returned)
     (PurgeUntaggedManifests deletable (examplePurger eager brokenOnFirstPage) {}) =
     Some (Return (1, Some (Error ''internal server error''))) \<and>
   okDeletes (examplePurger eager brokenOnFirstPage)
     [GetAcrManifestsReq ''app'' [] [], DeleteManifestReq ''app'' ''sha256:a'',
      DeleteManifestReq ''app'' ''broken'', GetAcrManifestsReq ''app'' [] ''broken''] = 1 \<and>
   map_option (map_outcome returned)
     (sweepLoop deletable (examplePurger eager failsOnSecondPage) {} ''sha256:a''
        (\<lparr>nextIndex = 1, pending = [], firstError = None\<rparr>,
         \<lparr>deleted = 1,
          calls = [GetAcrManifestsReq ''app'' [] [], DeleteManifestReq ''app'' ''sha256:a''],
          printed = []\<rparr>)) =
     Some (Return (0, Some (Error ''connection reset'')))"
proof -
  let ?p = "examplePurger inOrder brokenOnFirstPage"
  let ?q = "examplePurger eager brokenOnFirstPage"
  let ?f = "examplePurger eager failsOnSecondPage"
  let ?e = "Some (Error ''internal server error'')"
  let ?s = "\<lparr>deleted = 1,
      calls = [DeleteManifestReq ''app'' ''broken'', DeleteManifestReq ''app'' ''sha256:a''],
      printed = [Printf ''Failed to delete %s/%s@%s, error: %v\<newline>''
                   [Str ''example.azurecr.io'', Str ''app'', Str ''broken'', Err ?e],
                 Printf ''Deleted %s/%s@%s\<newline>''
                   [Str ''example.azurecr.io'', Str ''app'', Str ''sha256:a'']]\<rparr>"
  let ?r = "((1, ?e), True, \<lparr>nextIndex = 2, pending = [], firstError = ?e\<rparr>,
      \<lparr>deleted = 1,
       calls = [GetAcrManifestsReq ''app'' [] [], DeleteManifestReq ''app'' ''sha256:a'',
                DeleteManifestReq ''app'' ''broken'', GetAcrManifestsReq ''app'' [] ''broken''],
       printed = [Printf ''Deleted %s/%s@%s\<newline>''
                    [Str ''example.azurecr.io'', Str ''app'', Str ''sha256:a''],
                  Printf ''Failed to delete %s/%s@%s, error: %v\<newline>''
                    [Str ''example.azurecr.io'', Str ''app'', Str ''broken'', Err ?e]]\<rparr>)"
  let ?gs = "(\<lparr>nextIndex = 1, pending = [], firstError = None\<rparr>,
         \<lparr>deleted = 1,
          calls = [GetAcrManifestsReq ''app'' [] [], DeleteManifestReq ''app'' ''sha256:a''],
          printed = []\<rparr>)"
  have m: "PurgeManifests ?p [''broken'', ''sha256:a''] = Return ((1, ?e), ?s)"
    by (simp add: PurgeManifests_def example_defs)
  have u: "PurgeUntaggedManifests deletable ?q {} = Some (Return ?r)"
    by (simp add: PurgeUntaggedManifests_def sweepLoop.simps example_defs brokenOnFirstPage_def)
  have l: "GetAcrManifests (acrClient ?f) (repoName ?f) [] ''sha256:a'' =
      (None, Some (Error ''connection reset''))"
    by (simp add: examplePurger_def failsOnSecondPage_def)
  from returned_count_is_the_counter [of ?p _ 1 ?e ?s "[''broken'', ''sha256:a'']"] m
  have 1: "okDeletes ?p (calls ?s) = 1" by simp
  from returned_count_is_the_counter [of ?q _ _ _ _ _ deletable "{}" ?r] u
  have 2: "okDeletes ?q (calls (finalState ?r)) = 1"
    by (simp add: hasWaited_def returned_def)
  from returned_count_is_the_counter
    [of ?f _ _ _ _ _ deletable "{}" _ "''sha256:a''" None "Error ''connection reset''" ?gs] l
  have 3: "map_option (map_outcome returned) (sweepLoop deletable ?f {} ''sha256:a'' ?gs) =
      Some (Return (0, Some (Error ''connection reset'')))"
    by (simp add: repositoryNotFound_def)
  from m u 1 2 3 show ?thesis by (simp add: finalState_def returned_def)
qed

text \<open>
  Claim C2 as stated fails on the sweep: with a pool that runs each task at once, the first
  page's manifest is deleted (the counter is 1 and the line is printed), the second listing
  call fails, and the sweep returns count \<open>0\<close> with the error.
\<close>

theorem sweep_returns_zero_after_a_deletion:
  "PurgeUntaggedManifests deletable (examplePurger eager failsOnSecondPage) {} =
     Some (Return ((0, Some (Error ''connection reset'')), False,
       \<lparr>nextIndex = 1, pending = [], firstError = None\<rparr>,
       \<lparr>deleted = 1,
        calls = [GetAcrManifestsReq ''app'' [] [], DeleteManifestReq ''app'' ''sha256:a'',
                 GetAcrManifestsReq ''app'' [] ''sha256:a''],
        printed = [Printf ''Deleted %s/%s@%s\<newline>''
                     [Str ''example.azurecr.io'', Str ''app'', Str ''sha256:a'']]\<rparr>))"
  by (simp add: PurgeUntaggedManifests_def sweepLoop.simps example_defs failsOnSecondPage_def)

text \<open>
  Claim C3. For every list of tags (of manifest digests) whose delete calls all succeed or
  fail with status not-found, \<^verbatim>\<open>PurgeTags\<close> (\<^verbatim>\<open>PurgeManifests\<close>) returns the length of
  the list and a nil error, under every schedule of the pool; a not-found answer adds one to
  the counter and yields no error, as a success does. A tag has a delete call when its
  \<^verbatim>\<open>Name\<close> is not nil.
\<close>

theorem purge_counts_every_target_without_failure:
  "((\<forall>tag\<in>set tags. \<exists>name. Name tag = Some name \<and>
        (succeeds (DeleteAcrTag (acrClient p) (repoName p) name) \<or>
         failsNotFound (DeleteAcrTag (acrClient p) (repoName p) name)))
      \<longrightarrow> (\<exists>s. PurgeTags p tags = Return ((int (length tags), None), s))) \<and>
   ((\<forall>d\<in>set manifests.
        succeeds (DeleteManifest (acrClient p) (repoName p) d) \<or>
        failsNotFound (DeleteManifest (acrClient p) (repoName p) d))
      \<longrightarrow> (\<exists>s. PurgeManifests p manifests = Return ((int (length manifests), None), s))) \<and>
   (failsNotFound (DeleteManifest (acrClient p) (repoName p) d)
      \<longrightarrow> fst (deleteManifest p d s0) = None \<and> deleted (snd (deleteManifest p d s0)) = deleted s0 + 1) \<and>
   (Name tag = Some name \<and> failsNotFound (DeleteAcrTag (acrClient p) (repoName p) name)
      \<longrightarrow> (\<exists>s'. deleteTag p tag s0 = Return (None, s') \<and> deleted s' = deleted s0 + 1))"
proof (intro conjI impI)
  assume a: "\<forall>tag\<in>set tags. \<exists>name. Name tag = Some name \<and>
        (succeeds (DeleteAcrTag (acrClient p) (repoName p) name) \<or>
         failsNotFound (DeleteAcrTag (acrClient p) (repoName p) name))"
  then have names: "\<forall>tag\<in>set tags. Name tag \<noteq> None" by auto
  from a have ok: "\<forall>tag\<in>set tags. \<not> tagFails p tag"
    by (auto simp: tagFails_def nonRecoverable_iff)
  then have "filter (\<lambda>t. \<not> tagFails p t) tags = tags" by simp
  with PurgeTags_counts [OF names, of p] ok
  show "\<exists>s. PurgeTags p tags = Return ((int (length tags), None), s)" by auto
next
  assume "\<forall>d\<in>set manifests.
        succeeds (DeleteManifest (acrClient p) (repoName p) d) \<or>
        failsNotFound (DeleteManifest (acrClient p) (repoName p) d)"
  then have ok: "\<forall>d\<in>set manifests. \<not> manifestFails p d"
    by (auto simp: manifestFails_def nonRecoverable_iff)
  then have "filter (\<lambda>d. \<not> manifestFails p d) manifests = manifests" by simp
  with PurgeManifests_counts [of p manifests] ok
  show "\<exists>s. PurgeManifests p manifests = Return ((int (length manifests), None), s)" by auto
next
  assume "failsNotFound (DeleteManifest (acrClient p) (repoName p) d)"
  then show "fst (deleteManifest p d s0) = None"
    by (auto simp: failsNotFound_def deleteManifest_def Let_def split: prod.splits)
next
  assume "failsNotFound (DeleteManifest (acrClient p) (repoName p) d)"
  then show "deleted (snd (deleteManifest p d s0)) = deleted s0 + 1"
    by (auto simp: failsNotFound_def deleteManifest_def Let_def split: prod.splits)
next
  assume "Name tag = Some name \<and> failsNotFound (DeleteAcrTag (acrClient p) (repoName p) name)"
  then show "\<exists>s'. deleteTag p tag s0 = Return (None, s') \<and> deleted s' = deleted s0 + 1"
    by (auto simp: failsNotFound_def deleteTag_def Let_def split: prod.splits)
qed

theorem purge_counts_every_target_without_failure_witness:
  "(\<exists>s. PurgeTags (examplePurger inOrder noListing)
          [\<lparr>Name = Some ''v1''\<rparr>, \<lparr>Name = Some ''gone''\<rparr>] = Return ((2, None), s)) \<and>
   (\<exists>s. PurgeManifests (examplePurger inOrder noListing) [''sha256:a'', ''gone'', ''sha256:b'']
          = Return ((3, None), s)) \<and>
   fst (deleteManifest (examplePurger inOrder noListing) ''gone'' initial) = None \<and>
   deleted (snd (deleteManifest (examplePurger inOrder noListing) ''gone'' initial)) = 1 \<and>
   (\<exists>s'. deleteTag (examplePurger inOrder noListing) \<lparr>Name = Some ''gone''\<rparr> initial =
           Return (None, s') \<and> deleted s' = 1)"
  using purge_counts_every_target_without_failure
    [of "[\<lparr>Name = Some ''v1''\<rparr>, \<lparr>Name = Some ''gone''\<rparr>]" "examplePurger inOrder noListing"
        "[''sha256:a'', ''gone'', ''sha256:b'']" "''gone''" initial
        "\<lparr>Name = Some ''gone''\<rparr>" "''gone''"]
  by (simp add: examplePurger_def exampleDelete_def succeeds_def failsNotFound_def
      okResponse_def notFoundResponse_def notFoundStatus_def StatusNotFound_def initial_def)

text \<open>
  Claim C4. For every call of \<^verbatim>\<open>PurgeTags\<close> or \<^verbatim>\<open>PurgeManifests\<close>, in either version and
  under every schedule of the pool, the count returned plus the number of targets whose
  delete call failed with something other than not-found is the number of targets; where
  exactly one delete call fails so, the count is the length less one and the error is not
  nil. For tags the names are not nil.
\<close>

theorem purge_count_plus_failures_is_total:
  "((\<forall>tag\<in>set tags. Name tag \<noteq> None) \<longrightarrow>
      (\<exists>n err s. PurgeTags p tags = Return ((n, err), s) \<and>
         n + int (length (filter (tagFails p) tags)) = int (length tags) \<and>
         (length (filter (tagFails p) tags) = 1 \<longrightarrow> n = int (length tags) - 1 \<and> err \<noteq> None)) \<and>
      (\<exists>n err s. PurgeTags_purger_go p tags = Return ((n, err), s) \<and>
         n + int (length (filter (tagFails p) tags)) = int (length tags) \<and>
         (length (filter (tagFails p) tags) = 1 \<longrightarrow> n = int (length tags) - 1 \<and> err \<noteq> None))) \<and>
   (\<exists>n err s. PurgeManifests p manifests = Return ((n, err), s) \<and>
      n + int (length (filter (manifestFails p) manifests)) = int (length manifests) \<and>
      (length (filter (manifestFails p) manifests) = 1 \<longrightarrow>
         n = int (length manifests) - 1 \<and> err \<noteq> None)) \<and>
   (\<exists>n err s. PurgeManifests_purger_go p manifests = Return ((n, err), s) \<and>
      n + int (length (filter (manifestFails p) manifests)) = int (length manifests) \<and>
      (length (filter (manifestFails p) manifests) = 1 \<longrightarrow>
         n = int (length manifests) - 1 \<and> err \<noteq> None))"
proof -
  have tags: "\<exists>n err s. r = Return ((n, err), s) \<and>
         n + int (length (filter (tagFails p) tags)) = int (length tags) \<and>
         (length (filter (tagFails p) tags) = 1 \<longrightarrow> n = int (length tags) - 1 \<and> err \<noteq> None)"
    if "\<exists>err s. r = Return ((int (length (filter (\<lambda>t. \<not> tagFails p t) tags)), err), s) \<and>
          (err = None) = (\<forall>t\<in>set tags. \<not> tagFails p t)" for r
  proof -
    from that obtain err s where
      r: "r = Return ((int (length (filter (\<lambda>t. \<not> tagFails p t) tags)), err), s)"
      and e: "(err = None) = (\<forall>t\<in>set tags. \<not> tagFails p t)" by blast
    have one: "err \<noteq> None" if "length (filter (tagFails p) tags) = 1"
      using filter_one_nonempty [OF that] e by blast
    show ?thesis
      using r one count_complement [of "tagFails p" tags] by auto
  qed
  have mans: "\<exists>n err s. r = Return ((n, err), s) \<and>
         n + int (length (filter (manifestFails p) manifests)) = int (length manifests) \<and>
         (length (filter (manifestFails p) manifests) = 1 \<longrightarrow>
            n = int (length manifests) - 1 \<and> err \<noteq> None)"
    if "\<exists>err s. r = Return ((int (length (filter (\<lambda>d. \<not> manifestFails p d) manifests)), err), s) \<and>
          (err = None) = (\<forall>d\<in>set manifests. \<not> manifestFails p d)" for r
  proof -
    from that obtain err s where
      r: "r = Return ((int (length (filter (\<lambda>d. \<not> manifestFails p d) manifests)), err), s)"
      and e: "(err = None) = (\<forall>d\<in>set manifests. \<not> manifestFails p d)" by blast
    have one: "err \<noteq> None" if "length (filter (manifestFails p) manifests) = 1"
      using filter_one_nonempty [OF that] e by blast
    show ?thesis
      using r one count_complement [of "manifestFails p" manifests] by auto
  qed
  show ?thesis
    using tags [OF PurgeTags_counts] tags [OF PurgeTags_purger_go_counts]
      mans [OF PurgeManifests_counts] mans [OF PurgeManifests_purger_go_counts]
    by blast
qed

theorem purge_count_plus_failures_is_total_witness:
  "(\<exists>s. PurgeTags (examplePurger inOrder noListing)
          [\<lparr>Name = Some ''v1''\<rparr>, \<lparr>Name = Some ''broken''\<rparr>, \<lparr>Name = Some ''gone''\<rparr>]
        = Return ((2, Some (Error ''internal server error'')), s)) \<and>
   (\<exists>s. PurgeManifests (examplePurger inOrder noListing) [''broken'', ''sha256:a'']
        = Return ((1, Some (Error ''internal server error'')), s))"
proof -
  let ?p = "examplePurger inOrder noListing"
  let ?tags = "[\<lparr>Name = Some ''v1''\<rparr>, \<lparr>Name = Some ''broken''\<rparr>, \<lparr>Name = Some ''gone''\<rparr>]"
  let ?ds = "[''broken'', ''sha256:a'']"
  have f: "tagFails ?p \<lparr>Name = Some ''broken''\<rparr>" "\<not> tagFails ?p \<lparr>Name = Some ''v1''\<rparr>"
    "\<not> tagFails ?p \<lparr>Name = Some ''gone''\<rparr>"
    "manifestFails ?p ''broken''" "\<not> manifestFails ?p ''sha256:a''"
    by (simp_all add: tagFails_def manifestFails_def nonRecoverable_def examplePurger_def
        exampleDelete_def okResponse_def notFoundResponse_def serverError_def
        notFoundStatus_def StatusNotFound_def)
  from purge_count_plus_failures_is_total [of ?tags ?p ?ds]
  obtain n err s m err' s' where
    t: "PurgeTags ?p ?tags = Return ((n, err), s)" "n = 2" and
    d: "PurgeManifests ?p ?ds = Return ((m, err'), s')" "m = 1"
    using f by auto
  have e: "PurgeTags ?p ?tags = Return ((n, err), s) \<Longrightarrow> err = Some (Error ''internal server error'')"
    "PurgeManifests ?p ?ds = Return ((m, err'), s') \<Longrightarrow> err' = Some (Error ''internal server error'')"
    by (auto simp: PurgeTags_def PurgeManifests_def examplePurger_def inOrder_def NewGroup_def
        SubmitErr_def worker_def Wait_def deleteTag_def manifestTask_def deleteManifest_def exampleDelete_def
        okResponse_def notFoundResponse_def serverError_def notFoundStatus_def StatusNotFound_def
        initial_def Let_def)
  show ?thesis using t d e by auto
qed

text \<open>
  Claim C5, as amended. For a listing of three pages of one manifest each, followed by the
  empty or absent page that ends it, \<^verbatim>\<open>PurgeUntaggedManifests\<close> returns after four list
  calls, under every schedule: the first with the empty cursor, each later one with the
  digest of the last record of the page before; the fourth call gets the page that stops
  the loop.
\<close>

theorem three_pages_are_listed_with_four_calls:
  assumes "GetAcrManifests (acrClient p) (repoName p) [] [] = (Some r1, None)"
    and "ManifestsAttributes r1 = Some [m1]" and "Digest m1 = Some d1"
    and "GetAcrManifests (acrClient p) (repoName p) [] d1 = (Some r2, None)"
    and "ManifestsAttributes r2 = Some [m2]" and "Digest m2 = Some d2"
    and "GetAcrManifests (acrClient p) (repoName p) [] d2 = (Some r3, None)"
    and "ManifestsAttributes r3 = Some [m3]" and "Digest m3 = Some d3"
    and "GetAcrManifests (acrClient p) (repoName p) [] d3 = (rm4, None)"
    and "rm4 = None \<or>
         (\<exists>r4. rm4 = Some r4 \<and> (ManifestsAttributes r4 = None \<or> ManifestsAttributes r4 = Some []))"
  shows "\<exists>r. PurgeUntaggedManifests D p skip = Some (Return r) \<and> hasWaited r \<and>
           listCursors (calls (finalState r)) = [[], d1, d2, d3]"
proof -
  from sweepLoop_page_inv [OF assms(1,2) _ _ initial_inv, of d1 D skip] assms(3)
  obtain gs1 where
    1: "sweepLoop D p skip [] (NewGroup, initial) = sweepLoop D p skip d1 gs1"
       "sweepInv p ({#} + mset (map (DeleteManifestReq (repoName p)) (eligible D skip [m1]))) gs1"
       "listCursors (calls (snd gs1)) = [[]]"
    by (auto simp: initial_def)
  obtain g1 s1 where gs1: "gs1 = (g1, s1)" by (cases gs1)
  from sweepLoop_page_inv [OF assms(4,5) _ _ 1(2) [unfolded gs1], of d2 D skip] assms(6)
  obtain gs2 where
    2: "sweepLoop D p skip d1 (g1, s1) = sweepLoop D p skip d2 gs2"
       "sweepInv p ({#} + mset (map (DeleteManifestReq (repoName p)) (eligible D skip [m1])) +
          mset (map (DeleteManifestReq (repoName p)) (eligible D skip [m2]))) gs2"
       "listCursors (calls (snd gs2)) = listCursors (calls s1) @ [d1]"
    by auto
  obtain g2 s2 where gs2: "gs2 = (g2, s2)" by (cases gs2)
  from sweepLoop_page_inv [OF assms(7,8) _ _ 2(2) [unfolded gs2], of d3 D skip] assms(9)
  obtain gs3 where
    3: "sweepLoop D p skip d2 (g2, s2) = sweepLoop D p skip d3 gs3"
       "sweepInv p ({#} + mset (map (DeleteManifestReq (repoName p)) (eligible D skip [m1])) +
          mset (map (DeleteManifestReq (repoName p)) (eligible D skip [m2])) +
          mset (map (DeleteManifestReq (repoName p)) (eligible D skip [m3]))) gs3"
       "listCursors (calls (snd gs3)) = listCursors (calls s2) @ [d2]"
    by auto
  obtain g3 s3 where gs3: "gs3 = (g3, s3)" by (cases gs3)
  from sweepLoop_break_inv [OF assms(10,11) 3(2) [unfolded gs3], of D skip]
  obtain n err s' where
    4: "sweepLoop D p skip d3 (g3, s3) = Some (Return ((n, err), True, g3\<lparr>pending := []\<rparr>, s'))"
       "listCursors (calls s') = listCursors (calls s3) @ [d3]"
    by auto
  have "PurgeUntaggedManifests D p skip = Some (Return ((n, err), True, g3\<lparr>pending := []\<rparr>, s'))"
    unfolding PurgeUntaggedManifests_def using 1(1) 2(1) 3(1) 4(1) gs1 gs2 gs3 by simp
  moreover have "listCursors (calls s') = [[], d1, d2, d3]"
    using 1(3) 2(3) 3(3) 4(2) gs1 gs2 gs3 by simp
  ultimately show ?thesis by (simp add: hasWaited_def finalState_def)
qed

theorem three_pages_are_listed_with_four_calls_witness:
  "\<exists>r. PurgeUntaggedManifests deletable (examplePurger eager threePages) {''sha256:b''} =
          Some (Return r) \<and> hasWaited r \<and>
        listCursors (calls (finalState r)) = [[], ''sha256:a'', ''sha256:b'', ''sha256:c'']"
  using three_pages_are_listed_with_four_calls
    [of "examplePurger eager threePages"
        "\<lparr>Response = Some \<lparr>StatusCode = 200\<rparr>,
          ManifestsAttributes = Some [\<lparr>Digest = Some ''sha256:a'', Attributes = ()\<rparr>]\<rparr>"
        "\<lparr>Digest = Some ''sha256:a'', Attributes = ()\<rparr>" "''sha256:a''"
        "\<lparr>Response = Some \<lparr>StatusCode = 200\<rparr>,
          ManifestsAttributes = Some [\<lparr>Digest = Some ''sha256:b'', Attributes = ()\<rparr>]\<rparr>"
        "\<lparr>Digest = Some ''sha256:b'', Attributes = ()\<rparr>" "''sha256:b''"
        "\<lparr>Response = Some \<lparr>StatusCode = 200\<rparr>,
          ManifestsAttributes = Some [\<lparr>Digest = Some ''sha256:c'', Attributes = ()\<rparr>]\<rparr>"
        "\<lparr>Digest = Some ''sha256:c'', Attributes = ()\<rparr>" "''sha256:c''"
        "Some \<lparr>Response = Some \<lparr>StatusCode = 200\<rparr>, ManifestsAttributes = Some []\<rparr>"
        deletable "{''sha256:b''}"]
  by (simp add: examplePurger_def threePages_def page_def)

text \<open>
  Claim C5 as stated fails: on three pages of one manifest each the sweep makes four list
  calls, not three.
\<close>

theorem three_pages_take_four_list_calls:
  "listCursors (sweepCalls (PurgeUntaggedManifests deletable (examplePurger inOrder threePages) {})) =
     [[], ''sha256:a'', ''sha256:b'', ''sha256:c'']"
  by (simp add: PurgeUntaggedManifests_def sweepLoop.simps example_defs threePages_def
      sweepCalls_def finalState_def)

text \<open>
  Claim C6. When a listing call answers with an error and a response of status not-found,
  the sweep returns \<open>(0, nil)\<close>: at any turn of the loop, and for the first call as the
  whole result, with no task submitted and no wait.
\<close>

theorem sweep_repository_not_found:
  "(GetAcrManifests (acrClient p) (repoName p) [] cursor = (Some r, Some e) \<and>
      Response r = Some h \<and> StatusCode h = StatusNotFound
      \<longrightarrow> map_option (map_outcome returned) (sweepLoop D p skip cursor gs) = Some (Return (0, None))) \<and>
   (GetAcrManifests (acrClient p) (repoName p) [] [] = (Some r, Some e) \<and>
      Response r = Some h \<and> StatusCode h = StatusNotFound
      \<longrightarrow> PurgeUntaggedManifests D p skip =
            Some (Return ((0, None), False, NewGroup,
              initial\<lparr>calls := [GetAcrManifestsReq (repoName p) [] []]\<rparr>)))"
proof (intro conjI impI)
  assume a: "GetAcrManifests (acrClient p) (repoName p) [] cursor = (Some r, Some e) \<and>
      Response r = Some h \<and> StatusCode h = StatusNotFound"
  obtain g s where gs: "gs = (g, s)" by (cases gs)
  from a have "repositoryNotFound (Some r)" by (simp add: repositoryNotFound_def)
  with a show "map_option (map_outcome returned) (sweepLoop D p skip cursor gs) = Some (Return (0, None))"
    unfolding gs by (simp add: sweepLoop_error returned_def)
next
  assume a: "GetAcrManifests (acrClient p) (repoName p) [] [] = (Some r, Some e) \<and>
      Response r = Some h \<and> StatusCode h = StatusNotFound"
  then have "repositoryNotFound (Some r)" by (simp add: repositoryNotFound_def)
  with a show "PurgeUntaggedManifests D p skip =
            Some (Return ((0, None), False, NewGroup,
              initial\<lparr>calls := [GetAcrManifestsReq (repoName p) [] []]\<rparr>))"
    by (simp add: PurgeUntaggedManifests_def sweepLoop_error initial_def)
qed

theorem sweep_repository_not_found_witness:
  "PurgeUntaggedManifests deletable (examplePurger inOrder repositoryMissing) {''sha256:a''} =
     Some (Return ((0, None), False, NewGroup,
       \<lparr>deleted = 0, calls = [GetAcrManifestsReq ''app'' [] []], printed = []\<rparr>))"
  using sweep_repository_not_found
    [of "examplePurger inOrder repositoryMissing" "[]"
        "\<lparr>Response = Some \<lparr>StatusCode = 404\<rparr>, ManifestsAttributes = None\<rparr>"
        "Error ''repository not found''" "\<lparr>StatusCode = 404\<rparr>" deletable "{''sha256:a''}"]
  by (simp add: examplePurger_def repositoryMissing_def StatusNotFound_def initial_def)

text \<open>
  Claim C7. A record of a page that has no digest, is not deletable or has its digest in
  the skip set is not submitted: the loop over the page does what it does on the page without
  that record. The digests \<open>eligible\<close> picks are those of the records that have one, are
  deletable and are not in the skip set, and a sweep that returns after waiting has sent
  delete requests for exactly those of the pages it listed. In particular, for a repository
  listed in one page, where every delete call of an eligible digest succeeds or is answered
  not-found, the sweep returns the number of eligible digests and a nil error under every
  schedule; with records A, B, C, skip set B and all deletable, that is 2, with A and C
  deleted.
\<close>

theorem sweep_submits_only_eligible_records:
  "(Digest m = None \<or> \<not> D m \<or> (\<exists>d. Digest m = Some d \<and> d \<in> skip) \<longrightarrow>
      submitManifests D p skip (xs @ m # ys) gs = submitManifests D p skip (xs @ ys) gs) \<and>
   (d \<in> set (eligible D skip ms)) = (\<exists>m\<in>set ms. Digest m = Some d \<and> D m \<and> d \<notin> skip) \<and>
   (PurgeUntaggedManifests D p skip = Some (Return r) \<and> hasWaited r \<longrightarrow>
      mset (deleteRequests (calls (finalState r))) =
        mset (expected D p skip (listCursors (calls (finalState r))))) \<and>
   (GetAcrManifests (acrClient p) (repoName p) [] [] = (Some r1, None) \<and>
    ManifestsAttributes r1 = Some ms \<and> ms \<noteq> [] \<and> Digest (last ms) = Some c \<and>
    GetAcrManifests (acrClient p) (repoName p) [] c = (rm2, None) \<and>
    (rm2 = None \<or>
     (\<exists>r2. rm2 = Some r2 \<and> (ManifestsAttributes r2 = None \<or> ManifestsAttributes r2 = Some []))) \<and>
    (\<forall>d\<in>set (eligible D skip ms).
        succeeds (DeleteManifest (acrClient p) (repoName p) d) \<or>
        failsNotFound (DeleteManifest (acrClient p) (repoName p) d))
    \<longrightarrow> (\<exists>r. PurgeUntaggedManifests D p skip = Some (Return r) \<and>
           returned r = (int (length (eligible D skip ms)), None) \<and>
           mset (deleteRequests (calls (finalState r))) =
             mset (map (DeleteManifestReq (repoName p)) (eligible D skip ms))))"
proof (intro conjI impI)
  assume "PurgeUntaggedManifests D p skip = Some (Return r) \<and> hasWaited r"
  then show "mset (deleteRequests (calls (finalState r))) =
        mset (expected D p skip (listCursors (calls (finalState r))))"
    using PurgeUntaggedManifests_post [of D p skip "Return r"] by (simp add: sweepPost_def)
next
  assume "GetAcrManifests (acrClient p) (repoName p) [] [] = (Some r1, None) \<and>
    ManifestsAttributes r1 = Some ms \<and> ms \<noteq> [] \<and> Digest (last ms) = Some c \<and>
    GetAcrManifests (acrClient p) (repoName p) [] c = (rm2, None) \<and>
    (rm2 = None \<or>
     (\<exists>r2. rm2 = Some r2 \<and> (ManifestsAttributes r2 = None \<or> ManifestsAttributes r2 = Some []))) \<and>
    (\<forall>d\<in>set (eligible D skip ms).
        succeeds (DeleteManifest (acrClient p) (repoName p) d) \<or>
        failsNotFound (DeleteManifest (acrClient p) (repoName p) d))"
  then show "\<exists>r. PurgeUntaggedManifests D p skip = Some (Return r) \<and>
           returned r = (int (length (eligible D skip ms)), None) \<and>
           mset (deleteRequests (calls (finalState r))) =
             mset (map (DeleteManifestReq (repoName p)) (eligible D skip ms))"
    using single_page_sweep [of p r1 ms c rm2 D skip] by blast
qed (simp_all add: submitManifests_skips eligible_iff)

theorem sweep_submits_only_eligible_records_witness:
  "\<forall>pl. \<exists>r. PurgeUntaggedManifests deletable (examplePurger pl abcPage) {''sha256:b''} =
            Some (Return r) \<and>
          returned r = (2, None) \<and>
          mset (deleteRequests (calls (finalState r))) =
            {#DeleteManifestReq ''app'' ''sha256:a'', DeleteManifestReq ''app'' ''sha256:c''#}"
proof
  fix pl
  let ?ms = "map (\<lambda>d. \<lparr>Digest = d, Attributes = ()\<rparr>)
      [Some ''sha256:a'', Some ''sha256:b'', Some ''sha256:c'']"
  have e: "eligible deletable {''sha256:b''} ?ms = [''sha256:a'', ''sha256:c'']"
    by (simp add: deletable_def)
  from sweep_submits_only_eligible_records
    [of _ deletable "{''sha256:b''}" "examplePurger pl abcPage" _ _ _ _ ?ms _
        "\<lparr>Response = Some \<lparr>StatusCode = 200\<rparr>, ManifestsAttributes = Some ?ms\<rparr>" "''sha256:c''"
        "Some \<lparr>Response = Some \<lparr>StatusCode = 200\<rparr>, ManifestsAttributes = Some []\<rparr>"]
  show "\<exists>r. PurgeUntaggedManifests deletable (examplePurger pl abcPage) {''sha256:b''} =
            Some (Return r) \<and>
          returned r = (2, None) \<and>
          mset (deleteRequests (calls (finalState r))) =
            {#DeleteManifestReq ''app'' ''sha256:a'', DeleteManifestReq ''app'' ''sha256:c''#}"
    unfolding e
    by (simp add: examplePurger_def abcPage_def page_def exampleDelete_def succeeds_def
        okResponse_def)
qed

text \<open>
  Claim C8. When a listing call fails, or reports repository-not-found, at a turn of the loop
  reached with any group and any state, the sweep returns at once with count \<open>0\<close> and
  without waiting: the group is left as it is, pending tasks included, and the counter of
  the state, which tasks that already ran have increased, is not what is returned.
\<close>

theorem sweep_listing_failure_returns_zero_unjoined:
  "GetAcrManifests (acrClient p) (repoName p) [] cursor = (rm, Some e) \<longrightarrow>
     sweepLoop D p skip cursor (g, s) =
       Some (Return ((0, if repositoryNotFound rm then None else Some e), False, g,
         s\<lparr>calls := calls s @ [GetAcrManifestsReq (repoName p) [] cursor]\<rparr>))"
  by (simp add: sweepLoop_error)

theorem sweep_listing_failure_returns_zero_unjoined_witness:
  "PurgeUntaggedManifests deletable (examplePurger inOrder failsOnSecondPage) {} =
     Some (Return ((0, Some (Error ''connection reset'')), False,
       \<lparr>nextIndex = 1,
        pending = [manifestTask (examplePurger inOrder failsOnSecondPage) ''sha256:a''],
        firstError = None\<rparr>,
       \<lparr>deleted = 0,
        calls = [GetAcrManifestsReq ''app'' [] [], GetAcrManifestsReq ''app'' [] ''sha256:a''],
        printed = []\<rparr>))"
proof -
  let ?p = "examplePurger inOrder failsOnSecondPage"
  let ?g = "\<lparr>nextIndex = 1, pending = [manifestTask ?p ''sha256:a''], firstError = None\<rparr>"
  let ?s = "\<lparr>deleted = 0, calls = [GetAcrManifestsReq ''app'' [] []], printed = []\<rparr>"
  have first: "PurgeUntaggedManifests deletable ?p {} = sweepLoop deletable ?p {} ''sha256:a'' (?g, ?s)"
    unfolding PurgeUntaggedManifests_def
    by (subst sweepLoop.simps)
      (simp add: examplePurger_def failsOnSecondPage_def page_def deletable_def NewGroup_def
        SubmitErr_def worker_def inOrder_def initial_def Let_def)
  show ?thesis
    unfolding first
    using sweep_listing_failure_returns_zero_unjoined
      [of ?p "''sha256:a''" None "Error ''connection reset''" deletable "{}" ?g ?s]
    by (simp add: examplePurger_def failsOnSecondPage_def repositoryNotFound_def)
qed

text \<open>
  Claim C9, as amended. The task of \<^verbatim>\<open>PurgeTags\<close> dereferences \<^verbatim>\<open>tag.Name\<close> with no nil
  check, so that names that are not nil are a precondition: the task of a tag whose name is
  nil panics, in either version, before a delete request is sent. What the call does then is
  the pool's: with a pool that does not recover from a task's panic the call panics, exactly
  on the lists that hold such a tag; with a pool that recovers the panic into an error of the
  task the call never panics, counts the tags that have a name and whose delete call
  succeeded or was answered not-found, and returns an error that is nil exactly when every
  tag is one of those.
\<close>

theorem purge_tags_task_panics_on_nil_name:
  "(Name tag = None \<longrightarrow> deleteTag p tag s = Panic \<and> logDeleteTag lg p tag s = Panic) \<and>
   (recovers (pool p) = None \<longrightarrow>
      (PurgeTags p tags = Panic) = (\<exists>tag\<in>set tags. Name tag = None) \<and>
      (PurgeTags_purger_go p tags = Panic) = (\<exists>tag\<in>set tags. Name tag = None)) \<and>
   (recovers (pool p) = Some e \<longrightarrow>
      (\<exists>err s'. PurgeTags p tags =
           Return ((int (length (filter (\<lambda>t. Name t \<noteq> None \<and> \<not> tagFails p t) tags)), err), s') \<and>
         (err = None) = (\<forall>t\<in>set tags. Name t \<noteq> None \<and> \<not> tagFails p t)) \<and>
      (\<exists>err s'. PurgeTags_purger_go p tags =
           Return ((int (length (filter (\<lambda>t. Name t \<noteq> None \<and> \<not> tagFails p t) tags)), err), s') \<and>
         (err = None) = (\<forall>t\<in>set tags. Name t \<noteq> None \<and> \<not> tagFails p t)))"
proof (intro conjI impI)
  assume none: "recovers (pool p) = None"
  show "(PurgeTags p tags = Panic) = (\<exists>tag\<in>set tags. Name tag = None)"
  proof
    assume "PurgeTags p tags = Panic"
    then show "\<exists>tag\<in>set tags. Name tag = None"
      using PurgeTags_counts [of tags p] by fastforce
  next
    assume "\<exists>tag\<in>set tags. Name tag = None"
    then obtain tag where "tag \<in> set tags" "Name tag = None" by blast
    then have "deleteTag p tag \<in> set (map (deleteTag p) (execOrder (pool p) tags))"
      "\<forall>s. deleteTag p tag s = Panic"
      by (simp_all add: set_execOrder deleteTag_nil)
    then have "\<exists>t\<in>set (map (deleteTag p) (execOrder (pool p) tags)). \<forall>s. t s = Panic"
      by blast
    from run_panics [OF none this] show "PurgeTags p tags = Panic"
      by (simp add: PurgeTags_run)
  qed
  show "(PurgeTags_purger_go p tags = Panic) = (\<exists>tag\<in>set tags. Name tag = None)"
  proof
    assume "PurgeTags_purger_go p tags = Panic"
    then show "\<exists>tag\<in>set tags. Name tag = None"
      using PurgeTags_purger_go_counts [of tags p] by fastforce
  next
    let ?lg = "[(FieldRepository, Str (repoName p)), (FieldTagCount, Num (int (length tags)))]"
    assume "\<exists>tag\<in>set tags. Name tag = None"
    then obtain tag where "tag \<in> set tags" "Name tag = None" by blast
    then have "logDeleteTag ?lg p tag \<in> set (map (logDeleteTag ?lg p) (execOrder (pool p) tags))"
      "\<forall>s. logDeleteTag ?lg p tag s = Panic"
      by (simp_all add: set_execOrder logDeleteTag_nil)
    then have "\<exists>t\<in>set (map (logDeleteTag ?lg p) (execOrder (pool p) tags)). \<forall>s. t s = Panic"
      by blast
    from run_panics [OF none this] show "PurgeTags_purger_go p tags = Panic"
      by (simp add: PurgeTags_purger_go_run)
  qed
next
  assume "recovers (pool p) = Some e"
  then show "\<exists>err s'. PurgeTags p tags =
           Return ((int (length (filter (\<lambda>t. Name t \<noteq> None \<and> \<not> tagFails p t) tags)), err), s') \<and>
         (err = None) = (\<forall>t\<in>set tags. Name t \<noteq> None \<and> \<not> tagFails p t)"
    by (rule PurgeTags_counts_recovered)
next
  assume "recovers (pool p) = Some e"
  then show "\<exists>err s'. PurgeTags_purger_go p tags =
           Return ((int (length (filter (\<lambda>t. Name t \<noteq> None \<and> \<not> tagFails p t) tags)), err), s') \<and>
         (err = None) = (\<forall>t\<in>set tags. Name t \<noteq> None \<and> \<not> tagFails p t)"
    by (rule PurgeTags_purger_go_counts_recovered)
qed (simp_all add: deleteTag_nil logDeleteTag_nil)

theorem purge_tags_task_panics_on_nil_name_witness:
  "deleteTag (examplePurger inOrder noListing) \<lparr>Name = None\<rparr> initial = Panic \<and>
   PurgeTags (examplePurger inOrder noListing) [\<lparr>Name = Some ''v1''\<rparr>, \<lparr>Name = None\<rparr>] = Panic \<and>
   PurgeTags_purger_go (examplePurger eager noListing) [\<lparr>Name = Some ''v1''\<rparr>, \<lparr>Name = None\<rparr>] = Panic \<and>
   PurgeTags (examplePurger inOrder noListing) [\<lparr>Name = Some ''v1''\<rparr>] \<noteq> Panic \<and>
   (\<exists>err s'. PurgeTags (examplePurger recovering noListing)
        [\<lparr>Name = Some ''v1''\<rparr>, \<lparr>Name = None\<rparr>] = Return ((1, err), s') \<and> err \<noteq> None)"
proof -
  let ?tags = "[\<lparr>Name = Some ''v1''\<rparr>, \<lparr>Name = None\<rparr>]"
  have f: "\<not> tagFails (examplePurger recovering noListing) \<lparr>Name = Some ''v1''\<rparr>"
    by (simp add: tagFails_def nonRecoverable_def examplePurger_def exampleDelete_def
        okResponse_def)
  from purge_tags_task_panics_on_nil_name
    [of "\<lparr>Name = None\<rparr>" "examplePurger inOrder noListing" initial _ ?tags]
  have 1: "deleteTag (examplePurger inOrder noListing) \<lparr>Name = None\<rparr> initial = Panic"
    "PurgeTags (examplePurger inOrder noListing) ?tags = Panic"
    by (simp_all add: examplePurger_def inOrder_def)
  from purge_tags_task_panics_on_nil_name
    [of _ "examplePurger eager noListing" _ _ ?tags]
  have 2: "PurgeTags_purger_go (examplePurger eager noListing) ?tags = Panic"
    by (simp add: examplePurger_def eager_def)
  from purge_tags_task_panics_on_nil_name
    [of _ "examplePurger inOrder noListing" _ _ "[\<lparr>Name = Some ''v1''\<rparr>]"]
  have 3: "PurgeTags (examplePurger inOrder noListing) [\<lparr>Name = Some ''v1''\<rparr>] \<noteq> Panic"
    by (simp add: examplePurger_def inOrder_def)
  from purge_tags_task_panics_on_nil_name
    [of _ "examplePurger recovering noListing" _ _ ?tags "Error ''task panicked''"] f
  have 4: "\<exists>err s'. PurgeTags (examplePurger recovering noListing) ?tags = Return ((1, err), s') \<and>
      err \<noteq> None"
    by (simp add: examplePurger_def recovering_def)
  from 1 2 3 4 show ?thesis by blast
qed

text \<open>
  Claim C9 as stated fails: with a pool that recovers from a task's panic, the call on a tag
  with a name and one without does not panic; it deletes the first and returns the error
  that the pool gives for the panic.
\<close>

theorem purge_tags_returns_the_recovered_panic:
  "PurgeTags (examplePurger recovering noListing) [\<lparr>Name = Some ''v1''\<rparr>, \<lparr>Name = None\<rparr>] =
     Return ((1, Some (Error ''task panicked'')),
       \<lparr>deleted = 1, calls = [DeleteAcrTagReq ''app'' ''v1''],
        printed = [Printf ''Deleted %s/%s:%s\<newline>''
                     [Str ''example.azurecr.io'', Str ''app'', Str ''v1'']]\<rparr>)"
  by (simp add: PurgeTags_def examplePurger_def recovering_def NewGroup_def SubmitErr_def
      Wait_def worker_def deleteTag_def exampleDelete_def okResponse_def initial_def Let_def)

text \<open>
  Claim C10. The two versions of \<^verbatim>\<open>PurgeTags\<close> return the same count and error, and send
  the same requests in the same order, for every list of tags, every client and every
  schedule of the pool; only what they print or log differs.
\<close>

theorem purge_tags_versions_return_the_same:
  "map_outcome fst (PurgeTags_purger_go p tags) = map_outcome fst (PurgeTags p tags) \<and>
   map_outcome (\<lambda>r. calls (snd r)) (PurgeTags_purger_go p tags) =
     map_outcome (\<lambda>r. calls (snd r)) (PurgeTags p tags)"
proof -
  let ?lg = "[(FieldRepository, Str (repoName p)), (FieldTagCount, Num (int (length tags)))]"
  let ?s0 = "initial\<lparr>printed := [LogEvent Info ?lg ''Starting concurrent tag deletion'']\<rparr>"
  have "sameEffect ?s0 initial" by (simp add: sameEffect_def)
  with run_sameResult [of "logDeleteTag ?lg p" "deleteTag p" ?s0 initial "pool p"
      "execOrder (pool p) tags" None]
  have "sameResult (runTasks (pool p) (map (logDeleteTag ?lg p) (execOrder (pool p) tags)) None ?s0)
          (runTasks (pool p) (map (deleteTag p) (execOrder (pool p) tags)) None initial)"
    using deleteTag_sameResult by blast
  then show ?thesis
    unfolding PurgeTags_run PurgeTags_purger_go_run
    by (auto simp: sameResult_def sameEffect_def split: outcome.splits prod.splits)
qed

theorem purge_tags_versions_return_the_same_witness:
  "map_outcome fst (PurgeTags_purger_go (examplePurger inOrder noListing)
      [\<lparr>Name = Some ''v1''\<rparr>, \<lparr>Name = Some ''broken''\<rparr>]) =
   Return (1, Some (Error ''internal server error''))"
  using purge_tags_versions_return_the_same
    [of "examplePurger inOrder noListing" "[\<lparr>Name = Some ''v1''\<rparr>, \<lparr>Name = Some ''broken''\<rparr>]"]
  by (simp add: PurgeTags_def examplePurger_def inOrder_def NewGroup_def SubmitErr_def worker_def Wait_def
      deleteTag_def exampleDelete_def okResponse_def serverError_def notFoundStatus_def
      StatusNotFound_def initial_def Let_def)

end
